theory Spec2Isabelle
  imports Complex_Main "HOL-Library.Multiset"
begin

section \<open>Cluster-restricted cosine search (SphericalKMeans.ipynb)\<close>

text \<open>
  The notebook defines two functions of its own, \<open>create_cluster_index\<close> and \<open>search\<close>.
  Everything else it calls comes from scikit-learn and NumPy. Those library calls are
  modelled here by their documented behaviour, over the reals instead of floating point:
  \<^item> \<open>sklearn.preprocessing.normalize\<close> (L2, row-wise): every row is divided by its
    Euclidean norm, a norm of zero being replaced by one first, so that an all-zero row
    comes back unchanged;
  \<^item> \<open>sklearn.metrics.pairwise.cosine_similarity\<close>: both arguments are normalised as
    above and multiplied; arguments without a row, without a column or with different
    numbers of columns are rejected with a ValueError;
  \<^item> \<open>numpy.argmax\<close>: the index of the first occurrence of the maximum;
  \<^item> \<open>numpy.argsort\<close>: a permutation of the positions that puts the values in ascending
    order. The default sort kind gives no promise on the order of equal values, so the
    function is a parameter of \<open>search\<close>, constrained by \<open>argsort_ok\<close>;
    \<open>argsort_stable\<close> is the instance that keeps equal values in their original order
    (what the insertion sort used on short arrays does);
  \<^item> the fitted vectorizer's \<open>transform\<close> is a parameter: a function from the query
    text to a row of term weights.
  A matrix is the list of its rows.

  \<open>search\<close> is modelled twice. The value-level model takes the post-fit state as a
  record of values and is what the properties of the result are proved on. The
  heap-level model \<open>search_obj\<close> takes addresses of objects, as the Python function
  does; it is proved to compute the same result and to write to no existing object.
\<close>

subsection \<open>Errors\<close>

datatype error = KeyError | IndexError | ValueError | TypeError | AttributeError

subsection \<open>Library models: normalisation and cosine similarity\<close>

definition dot_product :: "real list \<Rightarrow> real list \<Rightarrow> real" where
  "dot_product x y = (\<Sum>p\<leftarrow>zip x y. fst p * snd p)"

definition row_norm :: "real list \<Rightarrow> real" where
  "row_norm v = sqrt (\<Sum>a\<leftarrow>v. a * a)"

definition handle_zeros_in_scale :: "real \<Rightarrow> real" where
  "handle_zeros_in_scale n = (if n = 0 then 1 else n)"

definition normalize_row :: "real list \<Rightarrow> real list" where
  "normalize_row v = map (\<lambda>a. a / handle_zeros_in_scale (row_norm v)) v"

text \<open>
  The input validation of scikit-learn: at least one row, at least one column. A NumPy
  array is rectangular by construction; a list of rows is not, so the check also
  rejects a ragged list.
\<close>

definition check_array :: "real list list \<Rightarrow> bool" where
  "check_array M \<longleftrightarrow> M \<noteq> [] \<and> hd M \<noteq> [] \<and> (\<forall>r\<in>set M. length r = length (hd M))"

definition normalize_l2 :: "real list list \<Rightarrow> error + real list list" where
  "normalize_l2 M = (if check_array M then Inr (map normalize_row M) else Inl ValueError)"

definition cosine_similarity :: "real list list \<Rightarrow> real list list \<Rightarrow> error + real list list" where
  "cosine_similarity X Y =
     (if check_array X \<and> check_array Y \<and> length (hd X) = length (hd Y)
      then (let X_normalized = map normalize_row X; Y_normalized = map normalize_row Y
            in Inr (map (\<lambda>x. map (\<lambda>y. dot_product x y) Y_normalized) X_normalized))
      else Inl ValueError)"

text \<open>One entry of that matrix: the cosine similarity of two rows.\<close>

definition cosine :: "real list \<Rightarrow> real list \<Rightarrow> real" where
  "cosine x y = dot_product (normalize_row x) (normalize_row y)"

subsection \<open>Library models: argmax, argsort, slicing\<close>

fun argmax_from :: "nat \<Rightarrow> real \<Rightarrow> nat \<Rightarrow> real list \<Rightarrow> nat" where
  "argmax_from best bv i [] = best"
| "argmax_from best bv i (x # xs) =
     (if bv < x then argmax_from i x (Suc i) xs else argmax_from best bv (Suc i) xs)"

definition argmax :: "real list \<Rightarrow> error + nat" where
  "argmax xs = (case xs of [] \<Rightarrow> Inl ValueError | x # rest \<Rightarrow> Inr (argmax_from 0 x 1 rest))"

definition argsort_ok :: "(real list \<Rightarrow> nat list) \<Rightarrow> bool" where
  "argsort_ok A \<longleftrightarrow>
     (\<forall>xs. mset (A xs) = mset [0..<length xs] \<and> sorted (map (\<lambda>i. xs ! i) (A xs)))"

definition argsort_stable :: "real list \<Rightarrow> nat list" where
  "argsort_stable xs = sort_key (\<lambda>i. xs ! i) [0..<length xs]"

text \<open>
  Python's \<open>a[-top_n:]\<close> on a sequence of length \<open>n\<close>: a negative start \<open>-top_n\<close> counts
  from the end and is clipped at 0; the start \<open>-0\<close> is 0, the whole sequence; a positive
  start (negative \<open>top_n\<close>) drops that many elements from the front.
\<close>

definition slice_last :: "int \<Rightarrow> 'a list \<Rightarrow> 'a list" where
  "slice_last top_n a =
     drop (nat (if 0 < top_n then int (length a) - top_n else - top_n)) a"

text \<open>A list comprehension \<open>[xs[i] for i in is]\<close>; an index out of range raises.\<close>

definition getitems :: "'a list \<Rightarrow> nat list \<Rightarrow> error + 'a list" where
  "getitems xs js = (if \<forall>j\<in>set js. j < length xs then Inr (map ((!) xs) js) else Inl IndexError)"

text \<open>\<open>str.lower\<close>, on ASCII letters.\<close>

definition lower_char :: "char \<Rightarrow> char" where
  "lower_char c = (let n = (of_char c :: nat) in if 65 \<le> n \<and> n \<le> 90 then char_of (n + 32) else c)"

definition lower :: "string \<Rightarrow> string" where
  "lower q = map lower_char q"

subsection \<open>The cluster index\<close>

text \<open>
  \<^verbatim>\<open>
  def create_cluster_index(clusters):
      cluster_index = {}
      for i, cluster in enumerate(clusters):
          if cluster not in cluster_index:
              cluster_index[cluster] = []
          cluster_index[cluster].append(i)
      return cluster_index
  \<close>
\<close>

definition index_step :: "nat \<times> nat \<Rightarrow> (nat \<rightharpoonup> nat list) \<Rightarrow> (nat \<rightharpoonup> nat list)" where
  "index_step p cluster_index =
     (let i = fst p; cluster = snd p;
          ci = (if cluster_index cluster = None then cluster_index(cluster \<mapsto> []) else cluster_index)
      in case ci cluster of
           None \<Rightarrow> ci
         | Some members \<Rightarrow> ci(cluster \<mapsto> members @ [i]))"

definition create_cluster_index :: "nat list \<Rightarrow> (nat \<rightharpoonup> nat list)" where
  "create_cluster_index clusters = fold index_step (enumerate 0 clusters) Map.empty"

subsection \<open>The shared post-fit state and the query\<close>

text \<open>
  The values of the objects \<open>search\<close> receives: the centroids of the fitted k-means
  model, the normalised document vectors, the cluster index and the titles. A query is
  a function from this state to a result and the state afterwards.
\<close>

record index_state =
  cluster_centers :: "real list list"
  normalized_vectors :: "real list list"
  cluster_index :: "nat \<rightharpoonup> nat list"
  articles_titles :: "string list"

type_synonym 'a query = "index_state \<Rightarrow> (error + 'a) \<times> index_state"

definition st_bind :: "'a query \<Rightarrow> ('a \<Rightarrow> 'b query) \<Rightarrow> 'b query" where
  "st_bind m f = (\<lambda>s. case m s of (Inl e, s') \<Rightarrow> (Inl e, s') | (Inr x, s') \<Rightarrow> f x s')"

definition st_lift :: "error + 'a \<Rightarrow> 'a query" where
  "st_lift r = (\<lambda>s. (r, s))"

definition get_cluster_centers :: "real list list query" where
  "get_cluster_centers = (\<lambda>s. (Inr (cluster_centers s), s))"

definition cluster_index_getitem :: "nat \<Rightarrow> nat list query" where
  "cluster_index_getitem c =
     (\<lambda>s. case cluster_index s c of None \<Rightarrow> (Inl KeyError, s) | Some members \<Rightarrow> (Inr members, s))"

definition take_rows :: "nat list \<Rightarrow> real list list query" where
  "take_rows docs = (\<lambda>s. (getitems (normalized_vectors s) docs, s))"

definition take_titles :: "nat list \<Rightarrow> string list query" where
  "take_titles docs = (\<lambda>s. (getitems (articles_titles s) docs, s))"

text \<open>
  \<^verbatim>\<open>
  cluster_centroids = kmeans_model.cluster_centers_
  query_cluster_similarities = cosine_similarity(normalized_query_vector, cluster_centroids)
  most_relevant_cluster = query_cluster_similarities.argmax()
  \<close>
\<close>

definition select_cluster :: "real list list \<Rightarrow> nat query" where
  "select_cluster normalized_query_vector =
     st_bind get_cluster_centers (\<lambda>cluster_centroids.
     st_bind (st_lift (cosine_similarity normalized_query_vector cluster_centroids))
       (\<lambda>query_cluster_similarities.
     st_lift (argmax (concat query_cluster_similarities))))"

text \<open>
  \<^verbatim>\<open>
  doc_similarities = cosine_similarity(normalized_query_vector,
                                       normalized_vectors[docs_in_relevant_cluster]).flatten()
  most_similar_docs_indices = np.argsort(doc_similarities)[-top_n:][::-1]
  ... docs_in_relevant_cluster[idx] for idx in most_similar_docs_indices
  \<close>
\<close>

definition rank_cluster ::
  "(real list \<Rightarrow> nat list) \<Rightarrow> real list list \<Rightarrow> nat list \<Rightarrow> int \<Rightarrow> nat list query" where
  "rank_cluster argsort normalized_query_vector docs_in_relevant_cluster top_n =
     st_bind (take_rows docs_in_relevant_cluster) (\<lambda>rows.
     st_bind (st_lift (cosine_similarity normalized_query_vector rows)) (\<lambda>sims.
     (let doc_similarities = concat sims;
          most_similar_docs_indices = rev (slice_last top_n (argsort doc_similarities))
      in st_lift (getitems docs_in_relevant_cluster most_similar_docs_indices))))"

text \<open>
  The document indices behind the titles \<open>search\<close> returns: all of \<open>search\<close> up to the
  lookup of the titles.
\<close>

definition search_docs ::
  "(real list \<Rightarrow> nat list) \<Rightarrow> string \<Rightarrow> (string \<Rightarrow> real list) \<Rightarrow> int \<Rightarrow> nat list query" where
  "search_docs argsort query transform top_n =
     (let query = lower query;
          query_vector = [transform query]
      in st_bind (st_lift (normalize_l2 query_vector)) (\<lambda>normalized_query_vector.
         st_bind (select_cluster normalized_query_vector) (\<lambda>most_relevant_cluster.
         st_bind (cluster_index_getitem most_relevant_cluster) (\<lambda>docs_in_relevant_cluster.
         rank_cluster argsort normalized_query_vector docs_in_relevant_cluster top_n))))"

definition search ::
  "(real list \<Rightarrow> nat list) \<Rightarrow> string \<Rightarrow> (string \<Rightarrow> real list) \<Rightarrow> int \<Rightarrow> string list query" where
  "search argsort query transform top_n =
     st_bind (search_docs argsort query transform top_n) take_titles"

subsection \<open>Notions the properties are stated with\<close>

text \<open>
  The similarity \<open>search\<close> computes between a query text and a row (a centroid or a
  document vector): the query is lowercased, transformed and normalised, then compared
  by \<open>cosine_similarity\<close>.
\<close>

definition query_similarity :: "(string \<Rightarrow> real list) \<Rightarrow> string \<Rightarrow> real list \<Rightarrow> real" where
  "query_similarity transform query v = cosine (normalize_row (transform (lower query))) v"

text \<open>
  The state the notebook builds before the first query: \<open>D\<close> columns in the centroid
  matrix and in the document matrix, one row, one label and one title per document, at
  least one centroid, and the cluster index built from the labels.
\<close>

definition post_fit :: "nat \<Rightarrow> nat list \<Rightarrow> index_state \<Rightarrow> bool" where
  "post_fit D clusters s \<longleftrightarrow>
     0 < D \<and> cluster_centers s \<noteq> []
     \<and> (\<forall>r\<in>set (cluster_centers s). length r = D)
     \<and> (\<forall>r\<in>set (normalized_vectors s). length r = D)
     \<and> length (normalized_vectors s) = length clusters
     \<and> length (articles_titles s) = length clusters
     \<and> cluster_index s = create_cluster_index clusters"

subsection \<open>The query on a heap of objects\<close>

text \<open>
  Python passes the fitted model, the document matrix, the cluster index and the titles
  by reference, and a callee can write to them. To state that \<open>search\<close> does not, the
  query is modelled a second time over a heap: a list of objects, an address being a
  position in it. \<open>new\<close> allocates at the end, \<open>deref\<close> reads, \<open>assign\<close> overwrites an
  existing object in place. The dictionary holds the addresses of its member lists, so
  that \<open>cluster_index[c]\<close> returns an alias of the list stored in the index.
\<close>

datatype pyobj =
    Matrix "real list list"
  | Array "real list"
  | IntList "nat list"
  | StrList "string list"
  | Dict "nat \<Rightarrow> nat option"
  | KMeans nat

type_synonym heap = "pyobj list"

type_synonym 'a cmd = "heap \<Rightarrow> (error + 'a) \<times> heap"

definition hreturn :: "'a \<Rightarrow> 'a cmd" where
  "hreturn x = (\<lambda>h. (Inr x, h))"

definition hraise :: "error \<Rightarrow> 'a cmd" where
  "hraise e = (\<lambda>h. (Inl e, h))"

definition hbind :: "'a cmd \<Rightarrow> ('a \<Rightarrow> 'b cmd) \<Rightarrow> 'b cmd" where
  "hbind m f = (\<lambda>h. case m h of (Inl e, h') \<Rightarrow> (Inl e, h') | (Inr x, h') \<Rightarrow> f x h')"

definition hlift :: "error + 'a \<Rightarrow> 'a cmd" where
  "hlift r = (\<lambda>h. (r, h))"

definition new :: "pyobj \<Rightarrow> nat cmd" where
  "new v = (\<lambda>h. (Inr (length h), h @ [v]))"

definition deref :: "nat \<Rightarrow> pyobj cmd" where
  "deref a = (\<lambda>h. if a < length h then (Inr (h ! a), h) else (Inl TypeError, h))"

definition assign :: "nat \<Rightarrow> pyobj \<Rightarrow> unit cmd" where
  "assign a v = (\<lambda>h. if a < length h then (Inr (), h[a := v]) else (Inl TypeError, h))"

definition get_matrix :: "nat \<Rightarrow> real list list cmd" where
  "get_matrix a = hbind (deref a) (\<lambda>v. case v of Matrix m \<Rightarrow> hreturn m | _ \<Rightarrow> hraise TypeError)"

definition get_array :: "nat \<Rightarrow> real list cmd" where
  "get_array a = hbind (deref a) (\<lambda>v. case v of Array xs \<Rightarrow> hreturn xs | _ \<Rightarrow> hraise TypeError)"

definition get_intlist :: "nat \<Rightarrow> nat list cmd" where
  "get_intlist a = hbind (deref a) (\<lambda>v. case v of IntList xs \<Rightarrow> hreturn xs | _ \<Rightarrow> hraise TypeError)"

definition get_strlist :: "nat \<Rightarrow> string list cmd" where
  "get_strlist a = hbind (deref a) (\<lambda>v. case v of StrList xs \<Rightarrow> hreturn xs | _ \<Rightarrow> hraise TypeError)"

text \<open>
  The library calls on objects. \<open>sklearn.preprocessing.normalize\<close> has the parameter
  \<open>copy\<close> (default \<open>True\<close>): with \<open>copy=False\<close> it normalises its argument in place;
  the notebook calls it with the default. \<open>cosine_similarity\<close> normalises copies of its
  arguments; indexing a matrix with a list of rows, \<open>flatten\<close> and \<open>argsort\<close> return
  new arrays. The slice and the reversal are views of the array \<open>argsort\<close> has just
  allocated; they are modelled as new objects too.
\<close>

definition transform_obj :: "(string \<Rightarrow> real list) \<Rightarrow> string \<Rightarrow> nat cmd" where
  "transform_obj transform query = new (Matrix [transform query])"

definition normalize_obj :: "bool \<Rightarrow> nat \<Rightarrow> nat cmd" where
  "normalize_obj copy X =
     hbind (get_matrix X) (\<lambda>m.
     hbind (hlift (normalize_l2 m)) (\<lambda>m'.
     if copy then new (Matrix m')
     else hbind (assign X (Matrix m')) (\<lambda>_. hreturn X)))"

definition cosine_similarity_obj :: "nat \<Rightarrow> nat \<Rightarrow> nat cmd" where
  "cosine_similarity_obj X Y =
     hbind (get_matrix X) (\<lambda>x.
     hbind (get_matrix Y) (\<lambda>y.
     hbind (hlift (cosine_similarity x y)) (\<lambda>k. new (Matrix k))))"

definition getattr_cluster_centers :: "nat \<Rightarrow> nat cmd" where
  "getattr_cluster_centers kmeans_model =
     hbind (deref kmeans_model) (\<lambda>v. case v of KMeans a \<Rightarrow> hreturn a | _ \<Rightarrow> hraise AttributeError)"

definition argmax_obj :: "nat \<Rightarrow> nat cmd" where
  "argmax_obj X = hbind (get_matrix X) (\<lambda>m. hlift (argmax (concat m)))"

definition dict_getitem :: "nat \<Rightarrow> nat \<Rightarrow> nat cmd" where
  "dict_getitem d k =
     hbind (deref d) (\<lambda>v. case v of
        Dict f \<Rightarrow> (case f k of None \<Rightarrow> hraise KeyError | Some a \<Rightarrow> hreturn a)
      | _ \<Rightarrow> hraise TypeError)"

definition take_rows_obj :: "nat \<Rightarrow> nat \<Rightarrow> nat cmd" where
  "take_rows_obj X docs =
     hbind (get_matrix X) (\<lambda>m.
     hbind (get_intlist docs) (\<lambda>ds.
     hbind (hlift (getitems m ds)) (\<lambda>rows. new (Matrix rows))))"

definition flatten_obj :: "nat \<Rightarrow> nat cmd" where
  "flatten_obj X = hbind (get_matrix X) (\<lambda>m. new (Array (concat m)))"

definition argsort_obj :: "(real list \<Rightarrow> nat list) \<Rightarrow> nat \<Rightarrow> nat cmd" where
  "argsort_obj argsort X = hbind (get_array X) (\<lambda>xs. new (IntList (argsort xs)))"

definition slice_last_obj :: "int \<Rightarrow> nat \<Rightarrow> nat cmd" where
  "slice_last_obj top_n X = hbind (get_intlist X) (\<lambda>js. new (IntList (slice_last top_n js)))"

definition reversed_obj :: "nat \<Rightarrow> nat cmd" where
  "reversed_obj X = hbind (get_intlist X) (\<lambda>js. new (IntList (rev js)))"

definition titles_obj :: "nat \<Rightarrow> nat \<Rightarrow> nat \<Rightarrow> nat cmd" where
  "titles_obj titles_ref docs idxs =
     hbind (get_strlist titles_ref) (\<lambda>ts.
     hbind (get_intlist docs) (\<lambda>ds.
     hbind (get_intlist idxs) (\<lambda>js.
     hbind (hlift (getitems ds js)) (\<lambda>picked.
     hbind (hlift (getitems ts picked)) (\<lambda>titles. new (StrList titles))))))"

text \<open>\<open>search\<close>, statement by statement, its arguments being addresses.\<close>

definition select_cluster_obj :: "nat \<Rightarrow> nat \<Rightarrow> nat cmd" where
  "select_cluster_obj normalized_query_vector kmeans_model =
     hbind (getattr_cluster_centers kmeans_model) (\<lambda>cluster_centroids.
     hbind (cosine_similarity_obj normalized_query_vector cluster_centroids)
       (\<lambda>query_cluster_similarities.
     argmax_obj query_cluster_similarities))"

definition rank_cluster_obj :: "(real list \<Rightarrow> nat list) \<Rightarrow> nat \<Rightarrow> nat \<Rightarrow> nat \<Rightarrow> int \<Rightarrow> nat cmd" where
  "rank_cluster_obj argsort normalized_query_vector vectors_ref docs_in_relevant_cluster top_n =
     hbind (take_rows_obj vectors_ref docs_in_relevant_cluster) (\<lambda>rows.
     hbind (cosine_similarity_obj normalized_query_vector rows) (\<lambda>sims.
     hbind (flatten_obj sims) (\<lambda>doc_similarities.
     hbind (argsort_obj argsort doc_similarities) (\<lambda>sorted_positions.
     hbind (slice_last_obj top_n sorted_positions) (\<lambda>last_positions.
     reversed_obj last_positions)))))"

definition search_obj ::
  "(real list \<Rightarrow> nat list) \<Rightarrow> string \<Rightarrow> (string \<Rightarrow> real list) \<Rightarrow> nat \<Rightarrow> nat \<Rightarrow> nat \<Rightarrow> nat \<Rightarrow> int
     \<Rightarrow> nat cmd" where
  "search_obj argsort query transform kmeans_model vectors_ref index_ref titles_ref top_n =
     hbind (transform_obj transform (lower query)) (\<lambda>query_vector.
     hbind (normalize_obj True query_vector) (\<lambda>normalized_query_vector.
     hbind (select_cluster_obj normalized_query_vector kmeans_model) (\<lambda>most_relevant_cluster.
     hbind (dict_getitem index_ref most_relevant_cluster) (\<lambda>docs_in_relevant_cluster.
     hbind (rank_cluster_obj argsort normalized_query_vector vectors_ref docs_in_relevant_cluster top_n)
       (\<lambda>most_similar_docs_indices.
     titles_obj titles_ref docs_in_relevant_cluster most_similar_docs_indices)))))"

text \<open>
  A command that leaves every object of the heap it starts from as it is, and at most
  allocates new ones behind them.
\<close>

definition only_allocates :: "'a cmd \<Rightarrow> bool" where
  "only_allocates m \<longleftrightarrow> (\<forall>h. \<exists>fresh. snd (m h) = h @ fresh)"

text \<open>
  The heap holds the post-fit state \<open>s\<close> at the addresses given to \<open>search\<close>: the model
  object refers to the centroid matrix, and the dictionary refers to one list object
  for each cluster that has an entry.
\<close>

definition represents :: "heap \<Rightarrow> nat \<Rightarrow> nat \<Rightarrow> nat \<Rightarrow> nat \<Rightarrow> index_state \<Rightarrow> bool" where
  "represents h kmeans_model vectors_ref index_ref titles_ref s \<longleftrightarrow>
     (\<exists>centers_ref f.
        kmeans_model < length h \<and> h ! kmeans_model = KMeans centers_ref
      \<and> centers_ref < length h \<and> h ! centers_ref = Matrix (cluster_centers s)
      \<and> vectors_ref < length h \<and> h ! vectors_ref = Matrix (normalized_vectors s)
      \<and> index_ref < length h \<and> h ! index_ref = Dict f
      \<and> (\<forall>k. case f k of
               None \<Rightarrow> cluster_index s k = None
             | Some a \<Rightarrow> a < length h \<and> h ! a = IntList (case cluster_index s k of None \<Rightarrow> [] | Some ms \<Rightarrow> ms)
                         \<and> cluster_index s k \<noteq> None)
      \<and> titles_ref < length h \<and> h ! titles_ref = StrList (articles_titles s))"

subsection \<open>Example corpora\<close>

text \<open>
  A vectorizer with the two-term vocabulary (cat, bank): a query made of an unseen term
  is transformed to the zero row. \<open>two_topics\<close> has two clusters of documents;
  in \<open>one_topic\<close> the second of two clusters received no document; in \<open>skewed\<close>
  the document closest to the query ''cat'' sits in the cluster the query does not select;
  in \<open>mixed\<close> one cluster holds a document far from and a document close to that query.
\<close>

definition toy_transform :: "string \<Rightarrow> real list" where
  "toy_transform q = (if q = ''cat'' then [1, 0] else if q = ''bank'' then [0, 1] else [0, 0])"

definition toy_labels :: "nat list" where
  "toy_labels = [0, 0, 1]"

definition two_topics :: index_state where
  "two_topics = \<lparr>cluster_centers = [[1, 0], [0, 1]],
                 normalized_vectors = [[1, 0], [1, 0], [0, 1]],
                 cluster_index = create_cluster_index toy_labels,
                 articles_titles = [''cat'', ''dog'', ''bank'']\<rparr>"

definition one_topic :: index_state where
  "one_topic = \<lparr>cluster_centers = [[1, 0], [0, 1]],
                 normalized_vectors = [[1, 0], [1, 0]],
                 cluster_index = create_cluster_index [0, 0],
                 articles_titles = [''cat'', ''dog'']\<rparr>"

definition skewed_labels :: "nat list" where
  "skewed_labels = [0, 1]"

definition skewed :: index_state where
  "skewed = \<lparr>cluster_centers = [[1, 0], [0, 1]],
              normalized_vectors = [[0, 1], [1, 0]],
              cluster_index = create_cluster_index skewed_labels,
              articles_titles = [''bank'', ''cat'']\<rparr>"

definition mixed :: index_state where
  "mixed = \<lparr>cluster_centers = [[1, 0], [0, 1]],
             normalized_vectors = [[0, 1], [1, 0]],
             cluster_index = create_cluster_index [0, 0],
             articles_titles = [''bank'', ''cat'']\<rparr>"

text \<open>
  \<open>two_topics\<close> as a heap: the model at address 0, its centroids at 1, the document
  matrix at 2, the cluster index at 3 with its two member lists at 4 and 5, the titles
  at 6.
\<close>

definition toy_heap :: heap where
  "toy_heap = [KMeans 1, Matrix [[1, 0], [0, 1]], Matrix [[1, 0], [1, 0], [0, 1]],
               Dict [0 \<mapsto> 4, 1 \<mapsto> 5], IntList [0, 1], IntList [2],
               StrList [''cat'', ''dog'', ''bank'']]"

section \<open>Facts about the library models\<close>

lemma check_array_single: "check_array [v] \<longleftrightarrow> v \<noteq> []"
  by (simp add: check_array_def)

lemma normalize_l2_single:
  "normalize_l2 [v] = (if v \<noteq> [] then Inr [normalize_row v] else Inl ValueError)"
  by (simp add: normalize_l2_def check_array_single)

lemma length_normalize_row: "length (normalize_row v) = length v"
  by (simp add: normalize_row_def)

lemma normalize_row_Nil_iff: "normalize_row v = [] \<longleftrightarrow> v = []"
  by (simp add: normalize_row_def)

lemma cosine_similarity_single:
  "cosine_similarity [x] Y =
     (if x \<noteq> [] \<and> check_array Y \<and> length x = length (hd Y)
      then Inr [map (cosine x) Y] else Inl ValueError)"
  by (simp add: cosine_similarity_def check_array_single cosine_def Let_def)

lemma check_array_rows:
  "check_array M \<and> length (hd M) = D \<longleftrightarrow> M \<noteq> [] \<and> 0 < D \<and> (\<forall>r\<in>set M. length r = D)"
  by (cases M) (auto simp: check_array_def)

lemma row_norm_zero_iff: "row_norm v = 0 \<longleftrightarrow> (\<forall>a\<in>set v. a = 0)"
proof -
  have "(\<Sum>a\<leftarrow>v. a * a) = 0 \<longleftrightarrow> (\<forall>x\<in>set (map (\<lambda>a. a * a) v). x = 0)"
    by (rule sum_list_nonneg_eq_0_iff) auto
  then show ?thesis by (simp add: row_norm_def)
qed

lemma normalize_row_zero: "\<forall>a\<in>set v. a = 0 \<Longrightarrow> normalize_row v = v"
  using row_norm_zero_iff [of v]
  by (simp add: normalize_row_def handle_zeros_in_scale_def map_idI)

lemma normalize_row_nonzero:
  "\<not> (\<forall>a\<in>set v. a = 0) \<Longrightarrow> normalize_row v = map (\<lambda>a. a / row_norm v) v"
  using row_norm_zero_iff [of v]
  by (simp add: normalize_row_def handle_zeros_in_scale_def)

lemma dot_product_zero: "\<forall>a\<in>set x. a = 0 \<Longrightarrow> dot_product x y = 0"
proof (induction x arbitrary: y)
  case Nil
  show ?case by (simp add: dot_product_def)
next
  case (Cons a x)
  then have "dot_product x ys = 0" for ys by simp
  then show ?case using Cons.prems
    by (cases y) (simp_all add: dot_product_def)
qed

lemma cosine_zero: "\<forall>a\<in>set x. a = 0 \<Longrightarrow> cosine x y = 0"
  by (simp add: cosine_def normalize_row_zero dot_product_zero)

lemma dot_product_scaled:
  "dot_product (map (\<lambda>a. a / n) x) (map (\<lambda>b. b / m) y) = dot_product x y / (n * m)"
proof (induction x arbitrary: y)
  case Nil
  show ?case by (simp add: dot_product_def)
next
  case (Cons a x)
  show ?case
  proof (cases y)
    case Nil
    then show ?thesis by (simp add: dot_product_def)
  next
    case (Cons b ys)
    have "dot_product (map (\<lambda>a. a / n) x) (map (\<lambda>b. b / m) ys) = dot_product x ys / (n * m)"
      by (rule Cons.IH)
    then show ?thesis
      using Cons by (simp add: dot_product_def add_divide_distrib)
  qed
qed

lemma cosine_quotient:
  "cosine x y = dot_product x y / (handle_zeros_in_scale (row_norm x) * handle_zeros_in_scale (row_norm y))"
  by (simp add: cosine_def normalize_row_def dot_product_scaled)

subsection \<open>argmax: the first position of the maximum\<close>

lemma argmax_from_props:
  assumes "ys = pre @ xs" "i = length pre" "best < i" "bv = ys ! best"
    "\<forall>j<i. ys ! j \<le> bv" "\<forall>j<best. ys ! j < bv"
  shows "argmax_from best bv i xs < length ys
     \<and> (\<forall>j<length ys. ys ! j \<le> ys ! argmax_from best bv i xs)
     \<and> (\<forall>j<argmax_from best bv i xs. ys ! j < ys ! argmax_from best bv i xs)"
  using assms
proof (induction xs arbitrary: best bv i pre)
  case Nil
  then show ?case by simp
next
  case (Cons x xs)
  have x: "ys ! i = x" using Cons.prems by simp
  have ys: "ys = (pre @ [x]) @ xs" "Suc i = length (pre @ [x])" using Cons.prems by simp_all
  show ?case
  proof (cases "bv < x")
    case True
    have "\<forall>j<Suc i. ys ! j \<le> x" using Cons.prems True x by (auto simp: less_Suc_eq)
    moreover have "\<forall>j<i. ys ! j < x" using Cons.prems True by auto
    ultimately show ?thesis
      using Cons.IH [OF ys, of i x] x True by simp
  next
    case False
    have "\<forall>j<Suc i. ys ! j \<le> bv" using Cons.prems False x by (auto simp: less_Suc_eq)
    then show ?thesis
      using Cons.IH [OF ys, of best bv] Cons.prems False by simp
  qed
qed

lemma argmax_props:
  assumes "argmax xs = Inr c"
  shows "c < length xs"
    and "\<And>j. j < length xs \<Longrightarrow> xs ! j \<le> xs ! c"
    and "\<And>j. j < c \<Longrightarrow> xs ! j < xs ! c"
proof -
  obtain x rest where xs: "xs = x # rest" and c: "argmax_from 0 x 1 rest = c"
    using assms by (cases xs) (simp_all add: argmax_def)
  have "argmax_from 0 x 1 rest < length xs
     \<and> (\<forall>j<length xs. xs ! j \<le> xs ! argmax_from 0 x 1 rest)
     \<and> (\<forall>j<argmax_from 0 x 1 rest. xs ! j < xs ! argmax_from 0 x 1 rest)"
  proof (rule argmax_from_props [where pre = "[x]"])
    show "xs = [x] @ rest" using xs by simp
    show "x = xs ! 0" using xs by simp
    show "\<forall>j<1. xs ! j \<le> x" using xs by simp
  qed simp_all
  then have p: "c < length xs \<and> (\<forall>j<length xs. xs ! j \<le> xs ! c) \<and> (\<forall>j<c. xs ! j < xs ! c)"
    unfolding c .
  from p show "c < length xs" by blast
  from p show "\<And>j. j < length xs \<Longrightarrow> xs ! j \<le> xs ! c" by blast
  from p show "\<And>j. j < c \<Longrightarrow> xs ! j < xs ! c" by blast
qed

lemma argmax_nonempty: "xs \<noteq> [] \<Longrightarrow> \<exists>c. argmax xs = Inr c"
  by (cases xs) (simp_all add: argmax_def)

lemma argmax_constant:
  assumes "xs \<noteq> []" "\<forall>x\<in>set xs. x = a"
  shows "argmax xs = Inr 0"
proof -
  obtain c where c: "argmax xs = Inr c"
    using argmax_nonempty [OF assms(1)] by blast
  have "c = 0"
  proof (rule ccontr)
    assume "c \<noteq> 0"
    then have "xs ! 0 < xs ! c" using argmax_props(3) [OF c, of 0] by simp
    moreover have "xs ! 0 = a" "xs ! c = a"
      using assms argmax_props(1) [OF c] by simp_all
    ultimately show False by simp
  qed
  then show ?thesis using c by simp
qed

subsection \<open>argsort, slicing and reversal\<close>

lemma argsort_stable_ok: "argsort_ok argsort_stable"
  by (simp add: argsort_ok_def argsort_stable_def sorted_sort_key del: upt.simps)

lemma argsort_set: "argsort_ok A \<Longrightarrow> set (A xs) = {0..<length xs}"
  by (metis argsort_ok_def set_mset_mset set_upt)

lemma argsort_length: "argsort_ok A \<Longrightarrow> length (A xs) = length xs"
  by (metis argsort_ok_def size_mset length_upt diff_zero)

lemma argsort_sorted: "argsort_ok A \<Longrightarrow> sorted (map ((!) xs) (A xs))"
  by (simp add: argsort_ok_def)

lemma set_slice_last: "set (slice_last n a) \<subseteq> set a"
  by (simp add: slice_last_def set_drop_subset)

lemma slice_last_all: "n = 0 \<or> int (length a) \<le> n \<Longrightarrow> slice_last n a = a"
  by (auto simp: slice_last_def)

lemma length_slice_last_pos: "0 < n \<Longrightarrow> length (slice_last n a) = min (nat n) (length a)"
  by (auto simp: slice_last_def)

lemma rev_slice_last: "0 < n \<Longrightarrow> rev (slice_last n a) = take (nat n) (rev a)"
proof -
  assume n: "0 < n"
  have "rev (slice_last n a) = take (length a - nat (int (length a) - n)) (rev a)"
    using n by (simp add: slice_last_def rev_drop)
  also have "length a - nat (int (length a) - n) = min (nat n) (length a)"
    using n by auto
  also have "take (min (nat n) (length a)) (rev a) = take (nat n) (rev a)"
    by (simp add: min_def)
  finally show ?thesis .
qed

lemma ranked_in_range:
  assumes "argsort_ok A"
  shows "\<forall>i\<in>set (rev (slice_last n (A (map f docs)))). i < length docs"
  using set_slice_last [of n "A (map f docs)"] argsort_set [OF assms, of "map f docs"] by auto

lemma getitems_ranked:
  assumes "argsort_ok A"
  shows "getitems docs (rev (slice_last n (A (map f docs))))
       = Inr (map ((!) docs) (rev (slice_last n (A (map f docs)))))"
  using ranked_in_range [OF assms] by (simp add: getitems_def)

lemma ranked_descending:
  assumes "argsort_ok A"
  shows "sorted_wrt (\<ge>) (map f (map ((!) docs) (rev (slice_last n (A (map f docs))))))"
proof -
  let ?sims = "map f docs"
  let ?idx = "slice_last n (A ?sims)"
  have "map f (map ((!) docs) ?idx) = map ((!) ?sims) ?idx"
    using ranked_in_range [OF assms, of n f docs] by simp
  also have "\<dots> = drop (nat (if 0 < n then int (length (A ?sims)) - n else - n)) (map ((!) ?sims) (A ?sims))"
    by (simp add: slice_last_def drop_map)
  finally have "sorted (map f (map ((!) docs) ?idx))"
    using argsort_sorted [OF assms, of ?sims] by (simp add: sorted_wrt_drop)
  moreover have "map f (map ((!) docs) (rev ?idx)) = rev (map f (map ((!) docs) ?idx))"
    by (simp add: rev_map)
  ultimately show ?thesis
    by (simp only: sorted_wrt_rev)
qed

lemma ranked_all:
  assumes "argsort_ok A" "n = 0 \<or> int (length docs) \<le> n"
  shows "mset (map ((!) docs) (rev (slice_last n (A (map f docs))))) = mset docs"
proof -
  have "slice_last n (A (map f docs)) = A (map f docs)"
    using assms by (intro slice_last_all) (simp add: argsort_length)
  moreover have "mset (A (map f docs)) = mset [0..<length docs]"
    using assms(1) by (simp add: argsort_ok_def)
  ultimately have "mset (map ((!) docs) (rev (slice_last n (A (map f docs)))))
       = mset (map ((!) docs) [0..<length docs])"
    by (metis mset_map mset_rev)
  then show ?thesis by (simp add: map_nth)
qed

section \<open>The cluster index, key by key\<close>

lemma index_step_eq:
  "index_step (i, x) m = m(x \<mapsto> (case m x of None \<Rightarrow> [] | Some l \<Rightarrow> l) @ [i])"
  by (auto simp: index_step_def Let_def split: option.splits)

lemma fold_index_step:
  "fold index_step (enumerate i cs) m c =
     (if c \<in> set cs
      then Some ((case m c of None \<Rightarrow> [] | Some l \<Rightarrow> l) @ map fst (filter (\<lambda>p. snd p = c) (enumerate i cs)))
      else m c)"
proof (induction cs arbitrary: i m)
  case Nil
  show ?case by simp
next
  case (Cons x xs)
  show ?case
    by (auto simp: Cons.IH index_step_eq filter_empty_conv in_set_enumerate_eq split: option.splits)
qed

lemma enumerate_filter_fst:
  "map fst (filter (\<lambda>p. snd p = c) (enumerate 0 cs)) = filter (\<lambda>j. cs ! j = c) [0..<length cs]"
proof -
  have "filter (\<lambda>p. snd p = c) (enumerate 0 cs) = filter ((\<lambda>j. cs ! j = c) \<circ> fst) (enumerate 0 cs)"
    by (rule filter_cong) (auto simp: in_set_enumerate_eq)
  then show ?thesis
    by (simp add: filter_map [symmetric])
qed

lemma create_cluster_index_lookup:
  "create_cluster_index cs c =
     (if c \<in> set cs then Some (filter (\<lambda>j. cs ! j = c) [0..<length cs]) else None)"
  by (simp add: create_cluster_index_def fold_index_step enumerate_filter_fst)

lemma length_members:
  "length (filter (\<lambda>j. clusters ! j = c) [0..<length clusters])
     = length (filter (\<lambda>l. l = c) clusters)"
proof -
  have "filter (\<lambda>l. l = c) (map ((!) clusters) [0..<length clusters])
      = map ((!) clusters) (filter (\<lambda>j. clusters ! j = c) [0..<length clusters])"
    by (simp add: filter_map comp_def)
  then have "length (filter (\<lambda>l. l = c) (map ((!) clusters) [0..<length clusters]))
      = length (filter (\<lambda>j. clusters ! j = c) [0..<length clusters])"
    by (simp only: length_map)
  then show ?thesis by (simp only: map_nth)
qed

section \<open>The query, step by step\<close>

lemma st_bind_lift:
  "st_bind (st_lift r) f s = (case r of Inl e \<Rightarrow> (Inl e, s) | Inr x \<Rightarrow> f x s)"
  by (simp add: st_bind_def st_lift_def split: sum.splits)

lemma select_cluster_eq:
  "select_cluster nq s =
     (case cosine_similarity nq (cluster_centers s) of
        Inl e \<Rightarrow> (Inl e, s)
      | Inr sims \<Rightarrow> (argmax (concat sims), s))"
  by (simp add: select_cluster_def st_bind_def st_lift_def get_cluster_centers_def split: sum.splits)

lemma rank_cluster_eq:
  "rank_cluster A nq docs n s =
     (case getitems (normalized_vectors s) docs of
        Inl e \<Rightarrow> (Inl e, s)
      | Inr rows \<Rightarrow>
          (case cosine_similarity nq rows of
             Inl e \<Rightarrow> (Inl e, s)
           | Inr sims \<Rightarrow> (getitems docs (rev (slice_last n (A (concat sims)))), s)))"
  by (simp add: rank_cluster_def st_bind_def st_lift_def take_rows_def Let_def split: sum.splits)

lemma st_bind_select:
  "st_bind (select_cluster nq) f s =
     (case fst (select_cluster nq s) of Inl e \<Rightarrow> (Inl e, s) | Inr c \<Rightarrow> f c s)"
  by (simp add: select_cluster_eq st_bind_def split: sum.splits)

lemma st_bind_getitem:
  "st_bind (cluster_index_getitem c) f s =
     (case cluster_index s c of None \<Rightarrow> (Inl KeyError, s) | Some docs \<Rightarrow> f docs s)"
  by (simp add: cluster_index_getitem_def st_bind_def split: option.splits)

lemma search_docs_eq:
  "search_docs A q tr n s =
     (case normalize_l2 [tr (lower q)] of
        Inl e \<Rightarrow> (Inl e, s)
      | Inr nq \<Rightarrow>
          (case fst (select_cluster nq s) of
             Inl e \<Rightarrow> (Inl e, s)
           | Inr c \<Rightarrow>
               (case cluster_index s c of
                  None \<Rightarrow> (Inl KeyError, s)
                | Some docs \<Rightarrow> rank_cluster A nq docs n s)))"
  by (simp add: search_docs_def Let_def st_bind_lift st_bind_select st_bind_getitem
      split: sum.splits option.splits)

lemma search_docs_snd: "snd (search_docs A q tr n s) = s"
  by (simp add: search_docs_eq rank_cluster_eq split: sum.splits option.splits)

lemma search_eq:
  "search A q tr n s =
     (case fst (search_docs A q tr n s) of
        Inl e \<Rightarrow> (Inl e, s)
      | Inr ds \<Rightarrow> (getitems (articles_titles s) ds, s))"
proof -
  obtain r where r: "search_docs A q tr n s = (r, s)"
    using search_docs_snd [of A q tr n s] by (cases "search_docs A q tr n s") simp
  show ?thesis
    by (simp add: search_def st_bind_def take_titles_def r split: sum.splits)
qed

lemma select_cluster_single:
  "fst (select_cluster [x] s) =
     (if x \<noteq> [] \<and> check_array (cluster_centers s) \<and> length x = length (hd (cluster_centers s))
      then argmax (map (cosine x) (cluster_centers s)) else Inl ValueError)"
  by (simp add: select_cluster_eq cosine_similarity_single)

lemma rank_cluster_single:
  "fst (rank_cluster A [x] docs n s) =
     (if \<forall>d\<in>set docs. d < length (normalized_vectors s)
      then (if x \<noteq> [] \<and> check_array (map ((!) (normalized_vectors s)) docs)
                \<and> length x = length (hd (map ((!) (normalized_vectors s)) docs))
            then getitems docs (rev (slice_last n (A (map (\<lambda>d. cosine x (normalized_vectors s ! d)) docs))))
            else Inl ValueError)
      else Inl IndexError)"
  by (simp add: rank_cluster_eq getitems_def cosine_similarity_single comp_def)

lemma search_docs_InrD:
  assumes "fst (search_docs A q tr n s) = Inr ds"
  shows "\<exists>c docs. tr (lower q) \<noteq> []
     \<and> fst (select_cluster [normalize_row (tr (lower q))] s) = Inr c
     \<and> cluster_index s c = Some docs
     \<and> docs \<noteq> []
     \<and> (\<forall>d\<in>set docs. d < length (normalized_vectors s)
            \<and> length (normalized_vectors s ! d) = length (tr (lower q)))
     \<and> getitems docs (rev (slice_last n
           (A (map (\<lambda>d. query_similarity tr q (normalized_vectors s ! d)) docs)))) = Inr ds"
  using assms
  by (auto simp: search_docs_eq normalize_l2_single rank_cluster_single query_similarity_def
      length_normalize_row check_array_def
      split: sum.splits option.splits if_splits)

lemma search_docs_InrI:
  assumes "tr (lower q) \<noteq> []"
    and "fst (select_cluster [normalize_row (tr (lower q))] s) = Inr c"
    and "cluster_index s c = Some docs"
    and "docs \<noteq> []"
    and "\<forall>d\<in>set docs. d < length (normalized_vectors s)
            \<and> length (normalized_vectors s ! d) = length (tr (lower q))"
  shows "fst (search_docs A q tr n s) =
     getitems docs (rev (slice_last n
           (A (map (\<lambda>d. query_similarity tr q (normalized_vectors s ! d)) docs))))"
proof -
  have "check_array (map ((!) (normalized_vectors s)) docs)"
    using assms(1,4,5) by (cases docs) (auto simp: check_array_def)
  moreover have "length (hd (map ((!) (normalized_vectors s)) docs)) = length (tr (lower q))"
    using assms(4,5) by (cases docs) auto
  ultimately show ?thesis
    using assms
    by (simp add: search_docs_eq normalize_l2_single rank_cluster_single query_similarity_def
      length_normalize_row normalize_row_Nil_iff)
qed

lemma post_fit_members:
  assumes "post_fit D clusters s" "cluster_index s c = Some docs"
  shows "docs = filter (\<lambda>j. clusters ! j = c) [0..<length clusters]"
    and "docs \<noteq> []"
    and "\<forall>d\<in>set docs. d < length clusters \<and> clusters ! d = c"
    and "\<forall>d\<in>set docs. d < length (normalized_vectors s) \<and> length (normalized_vectors s ! d) = D"
    and "\<forall>d\<in>set docs. d < length (articles_titles s)"
proof -
  have ci: "create_cluster_index clusters c = Some docs"
    using assms by (simp add: post_fit_def)
  then have c: "c \<in> set clusters"
    by (simp add: create_cluster_index_lookup split: if_splits)
  show d: "docs = filter (\<lambda>j. clusters ! j = c) [0..<length clusters]"
    using ci by (simp add: create_cluster_index_lookup split: if_splits)
  from c obtain i where "i < length clusters" "clusters ! i = c"
    by (auto simp: in_set_conv_nth)
  then have "i \<in> set docs" by (simp add: d)
  then show "docs \<noteq> []" by auto
  show r: "\<forall>d\<in>set docs. d < length clusters \<and> clusters ! d = c"
    by (simp add: d)
  show "\<forall>d\<in>set docs. d < length (normalized_vectors s) \<and> length (normalized_vectors s ! d) = D"
    using r assms(1) by (simp add: post_fit_def)
  show "\<forall>d\<in>set docs. d < length (articles_titles s)"
    using r assms(1) by (simp add: post_fit_def)
qed

section \<open>The query on the heap\<close>

subsection \<open>Commands that only allocate\<close>

lemma only_allocates_hreturn: "only_allocates (hreturn x)"
  by (simp add: only_allocates_def hreturn_def)

lemma only_allocates_hraise: "only_allocates (hraise e)"
  by (simp add: only_allocates_def hraise_def)

lemma only_allocates_hlift: "only_allocates (hlift r)"
  by (simp add: only_allocates_def hlift_def)

lemma only_allocates_new: "only_allocates (new v)"
  by (simp add: only_allocates_def new_def)

lemma only_allocates_deref: "only_allocates (deref a)"
  by (simp add: only_allocates_def deref_def)

lemma only_allocates_hbind:
  assumes "only_allocates m" "\<And>x. only_allocates (f x)"
  shows "only_allocates (hbind m f)"
  unfolding only_allocates_def
proof
  fix h
  obtain r h' where m: "m h = (r, h')" by (cases "m h")
  from assms(1) obtain f1 where h': "h' = h @ f1"
    using m by (auto simp: only_allocates_def dest: spec [of _ h])
  show "\<exists>fresh. snd (hbind m f h) = h @ fresh"
  proof (cases r)
    case (Inl e)
    then show ?thesis using m h' by (simp add: hbind_def)
  next
    case (Inr x)
    from assms(2) [of x] obtain f2 where "snd (f x h') = h' @ f2"
      by (auto simp: only_allocates_def dest: spec [of _ h'])
    then show ?thesis using m h' Inr by (simp add: hbind_def)
  qed
qed

lemmas only_allocates_intros =
  only_allocates_hbind only_allocates_hreturn only_allocates_hraise only_allocates_hlift
  only_allocates_new only_allocates_deref

lemma only_allocates_get:
  "only_allocates (get_matrix a)" "only_allocates (get_array a)"
  "only_allocates (get_intlist a)" "only_allocates (get_strlist a)"
  unfolding get_matrix_def get_array_def get_intlist_def get_strlist_def
  by (intro only_allocates_intros; simp add: only_allocates_intros split: pyobj.split)+

lemma only_allocates_normalize_copy: "only_allocates (normalize_obj True X)"
  unfolding normalize_obj_def
  by (intro only_allocates_intros only_allocates_get; simp add: only_allocates_intros)

lemma only_allocates_library:
  "only_allocates (transform_obj tr q)"
  "only_allocates (cosine_similarity_obj X Y)"
  "only_allocates (argmax_obj X)"
  "only_allocates (take_rows_obj X docs)"
  "only_allocates (flatten_obj X)"
  "only_allocates (argsort_obj A X)"
  "only_allocates (slice_last_obj n X)"
  "only_allocates (reversed_obj X)"
  "only_allocates (titles_obj ts docs idxs)"
  unfolding transform_obj_def cosine_similarity_obj_def argmax_obj_def take_rows_obj_def
    flatten_obj_def argsort_obj_def slice_last_obj_def reversed_obj_def titles_obj_def
  by (intro only_allocates_intros only_allocates_get)+

lemma only_allocates_getattr: "only_allocates (getattr_cluster_centers km)"
  unfolding getattr_cluster_centers_def
  by (intro only_allocates_intros; simp add: only_allocates_intros split: pyobj.split)

lemma only_allocates_dict_getitem: "only_allocates (dict_getitem d k)"
  unfolding dict_getitem_def
  by (intro only_allocates_intros; simp add: only_allocates_intros split: pyobj.split option.split)

lemma only_allocates_select: "only_allocates (select_cluster_obj nqv km)"
  unfolding select_cluster_obj_def
  by (intro only_allocates_hbind only_allocates_library only_allocates_getattr)

lemma only_allocates_rank: "only_allocates (rank_cluster_obj A nqv nv docs top_n)"
  unfolding rank_cluster_obj_def
  by (intro only_allocates_hbind only_allocates_library)

lemma only_allocates_search_obj:
  "only_allocates (search_obj A query tr km nv ci ts top_n)"
  unfolding search_obj_def
  by (intro only_allocates_hbind only_allocates_library only_allocates_normalize_copy
      only_allocates_select only_allocates_rank only_allocates_dict_getitem)

subsection \<open>The heap-level query computes what the value-level query computes\<close>

lemma hbind_run:
  "m h = (Inr x, h') \<Longrightarrow> hbind m f h = f x h'"
  "m h = (Inl e, h') \<Longrightarrow> hbind m f h = (Inl e, h')"
  by (simp_all add: hbind_def)

lemma get_matrix_run:
  "a < length h \<Longrightarrow> h ! a = Matrix m \<Longrightarrow> get_matrix a h = (Inr m, h)"
  by (simp add: get_matrix_def deref_def hbind_def hreturn_def)

lemma get_array_run:
  "a < length h \<Longrightarrow> h ! a = Array m \<Longrightarrow> get_array a h = (Inr m, h)"
  by (simp add: get_array_def deref_def hbind_def hreturn_def)

lemma get_intlist_run:
  "a < length h \<Longrightarrow> h ! a = IntList m \<Longrightarrow> get_intlist a h = (Inr m, h)"
  by (simp add: get_intlist_def deref_def hbind_def hreturn_def)

lemma get_strlist_run:
  "a < length h \<Longrightarrow> h ! a = StrList m \<Longrightarrow> get_strlist a h = (Inr m, h)"
  by (simp add: get_strlist_def deref_def hbind_def hreturn_def)

lemma hlift_bind: "hbind (hlift r) f h = (case r of Inl e \<Rightarrow> (Inl e, h) | Inr x \<Rightarrow> f x h)"
  by (simp add: hbind_def hlift_def split: sum.splits)

lemma normalize_obj_run:
  "X < length h \<Longrightarrow> h ! X = Matrix m \<Longrightarrow>
   normalize_obj True X h =
     (case normalize_l2 m of Inl e \<Rightarrow> (Inl e, h) | Inr m' \<Rightarrow> (Inr (length h), h @ [Matrix m']))"
  by (simp add: normalize_obj_def hbind_run(1) [OF get_matrix_run] hlift_bind new_def
      split: sum.splits)

lemma cosine_similarity_obj_run:
  "X < length h \<Longrightarrow> h ! X = Matrix x \<Longrightarrow> Y < length h \<Longrightarrow> h ! Y = Matrix y \<Longrightarrow>
   cosine_similarity_obj X Y h =
     (case cosine_similarity x y of Inl e \<Rightarrow> (Inl e, h) | Inr k \<Rightarrow> (Inr (length h), h @ [Matrix k]))"
  by (simp add: cosine_similarity_obj_def hbind_run(1) [OF get_matrix_run] hlift_bind new_def
      split: sum.splits)

lemma getattr_run:
  "km < length h \<Longrightarrow> h ! km = KMeans a \<Longrightarrow> getattr_cluster_centers km h = (Inr a, h)"
  by (simp add: getattr_cluster_centers_def deref_def hbind_def hreturn_def)

lemma argmax_obj_run:
  "X < length h \<Longrightarrow> h ! X = Matrix m \<Longrightarrow> argmax_obj X h = (argmax (concat m), h)"
  by (simp add: argmax_obj_def hbind_run(1) [OF get_matrix_run] hlift_def)

lemma dict_getitem_run:
  "d < length h \<Longrightarrow> h ! d = Dict f \<Longrightarrow>
   dict_getitem d k h = (case f k of None \<Rightarrow> (Inl KeyError, h) | Some a \<Rightarrow> (Inr a, h))"
  by (simp add: dict_getitem_def deref_def hbind_def hreturn_def hraise_def split: option.splits)

lemma take_rows_obj_run:
  "X < length h \<Longrightarrow> h ! X = Matrix m \<Longrightarrow> docs < length h \<Longrightarrow> h ! docs = IntList ds \<Longrightarrow>
   take_rows_obj X docs h =
     (case getitems m ds of Inl e \<Rightarrow> (Inl e, h) | Inr rows \<Rightarrow> (Inr (length h), h @ [Matrix rows]))"
  by (simp add: take_rows_obj_def hbind_run(1) [OF get_matrix_run] hbind_run(1) [OF get_intlist_run]
      hlift_bind new_def split: sum.splits)

lemma flatten_obj_run:
  "X < length h \<Longrightarrow> h ! X = Matrix m \<Longrightarrow>
   flatten_obj X h = (Inr (length h), h @ [Array (concat m)])"
  by (simp add: flatten_obj_def hbind_run(1) [OF get_matrix_run] new_def)

lemma argsort_obj_run:
  "X < length h \<Longrightarrow> h ! X = Array xs \<Longrightarrow>
   argsort_obj A X h = (Inr (length h), h @ [IntList (A xs)])"
  by (simp add: argsort_obj_def hbind_run(1) [OF get_array_run] new_def)

lemma slice_last_obj_run:
  "X < length h \<Longrightarrow> h ! X = IntList js \<Longrightarrow>
   slice_last_obj n X h = (Inr (length h), h @ [IntList (slice_last n js)])"
  by (simp add: slice_last_obj_def hbind_run(1) [OF get_intlist_run] new_def)

lemma reversed_obj_run:
  "X < length h \<Longrightarrow> h ! X = IntList js \<Longrightarrow>
   reversed_obj X h = (Inr (length h), h @ [IntList (rev js)])"
  by (simp add: reversed_obj_def hbind_run(1) [OF get_intlist_run] new_def)

lemma titles_obj_run:
  "ts < length h \<Longrightarrow> h ! ts = StrList titles \<Longrightarrow> docs < length h \<Longrightarrow> h ! docs = IntList ds \<Longrightarrow>
   idxs < length h \<Longrightarrow> h ! idxs = IntList js \<Longrightarrow>
   titles_obj ts docs idxs h =
     (case getitems ds js of
        Inl e \<Rightarrow> (Inl e, h)
      | Inr picked \<Rightarrow>
          (case getitems titles picked of
             Inl e \<Rightarrow> (Inl e, h)
           | Inr r \<Rightarrow> (Inr (length h), h @ [StrList r])))"
  by (simp add: titles_obj_def hbind_run(1) [OF get_strlist_run] hbind_run(1) [OF get_intlist_run]
      hlift_bind new_def split: sum.splits)

lemma select_cluster_obj_run:
  assumes "nqv < length h" "h ! nqv = Matrix nq"
    and "km < length h" "h ! km = KMeans cc" "cc < length h" "h ! cc = Matrix C"
  shows "select_cluster_obj nqv km h =
     (case cosine_similarity nq C of
        Inl e \<Rightarrow> (Inl e, h)
      | Inr k \<Rightarrow> (argmax (concat k), h @ [Matrix k]))"
proof (cases "cosine_similarity nq C")
  case (Inl e)
  then show ?thesis
    using assms
    by (simp add: select_cluster_obj_def hbind_run(1) [OF getattr_run]
        hbind_run(2) [OF cosine_similarity_obj_run [THEN trans]])
next
  case (Inr k)
  have "cosine_similarity_obj nqv cc h = (Inr (length h), h @ [Matrix k])"
    using assms Inr by (simp add: cosine_similarity_obj_run)
  moreover have "argmax_obj (length h) (h @ [Matrix k]) = (argmax (concat k), h @ [Matrix k])"
    by (simp add: argmax_obj_run)
  ultimately show ?thesis
    using assms Inr
    by (simp add: select_cluster_obj_def hbind_run(1) [OF getattr_run] hbind_run(1))
qed

lemma rank_cluster_obj_run:
  assumes "nqv < length h" "h ! nqv = Matrix nq"
    and "nv < length h" "h ! nv = Matrix V"
    and "docs < length h" "h ! docs = IntList ds"
  shows "rank_cluster_obj A nqv nv docs n h =
     (case getitems V ds of
        Inl e \<Rightarrow> (Inl e, h)
      | Inr rows \<Rightarrow>
          (case cosine_similarity nq rows of
             Inl e \<Rightarrow> (Inl e, h @ [Matrix rows])
           | Inr sims \<Rightarrow>
               (Inr (length h + 5),
                h @ [Matrix rows, Matrix sims, Array (concat sims), IntList (A (concat sims)),
                     IntList (slice_last n (A (concat sims))),
                     IntList (rev (slice_last n (A (concat sims))))])))"
proof (cases "getitems V ds")
  case (Inl e)
  then have "take_rows_obj nv docs h = (Inl e, h)"
    using assms by (simp add: take_rows_obj_run)
  then show ?thesis using Inl by (simp add: rank_cluster_obj_def hbind_run(2))
next
  case rows: (Inr rows)
  let ?h1 = "h @ [Matrix rows]"
  have t: "take_rows_obj nv docs h = (Inr (length h), ?h1)"
    using assms rows by (simp add: take_rows_obj_run)
  have c: "cosine_similarity_obj nqv (length h) ?h1 =
      (case cosine_similarity nq rows of
         Inl e \<Rightarrow> (Inl e, ?h1) | Inr k \<Rightarrow> (Inr (length ?h1), ?h1 @ [Matrix k]))"
    using assms by (intro cosine_similarity_obj_run) (simp_all add: nth_append)
  show ?thesis
  proof (cases "cosine_similarity nq rows")
    case (Inl e)
    then show ?thesis
      using rows t c by (simp add: rank_cluster_obj_def hbind_run)
  next
    case sims: (Inr sims)
    let ?xs = "concat sims"
    have c': "cosine_similarity_obj nqv (length h) (h @ [Matrix rows])
        = (Inr (Suc (length h)), h @ [Matrix rows, Matrix sims])"
      using c sims by simp
    have fl: "flatten_obj (Suc (length h)) (h @ [Matrix rows, Matrix sims])
        = (Inr (Suc (Suc (length h))), h @ [Matrix rows, Matrix sims, Array ?xs])"
      using flatten_obj_run [of "Suc (length h)" "h @ [Matrix rows, Matrix sims]" sims]
      by (simp add: nth_append)
    have ar: "argsort_obj A (Suc (Suc (length h))) (h @ [Matrix rows, Matrix sims, Array ?xs])
        = (Inr (Suc (Suc (Suc (length h)))),
           h @ [Matrix rows, Matrix sims, Array ?xs, IntList (A ?xs)])"
      using argsort_obj_run [of "Suc (Suc (length h))" "h @ [Matrix rows, Matrix sims, Array ?xs]" ?xs A]
      by (simp add: nth_append)
    have sl: "slice_last_obj n (Suc (Suc (Suc (length h))))
          (h @ [Matrix rows, Matrix sims, Array ?xs, IntList (A ?xs)])
        = (Inr (Suc (Suc (Suc (Suc (length h))))),
           h @ [Matrix rows, Matrix sims, Array ?xs, IntList (A ?xs), IntList (slice_last n (A ?xs))])"
      using slice_last_obj_run [of "Suc (Suc (Suc (length h)))"
          "h @ [Matrix rows, Matrix sims, Array ?xs, IntList (A ?xs)]" "A ?xs" n]
      by (simp add: nth_append)
    have rv: "reversed_obj (Suc (Suc (Suc (Suc (length h)))))
          (h @ [Matrix rows, Matrix sims, Array ?xs, IntList (A ?xs), IntList (slice_last n (A ?xs))])
        = (Inr (Suc (Suc (Suc (Suc (Suc (length h)))))),
           h @ [Matrix rows, Matrix sims, Array ?xs, IntList (A ?xs), IntList (slice_last n (A ?xs)),
                IntList (rev (slice_last n (A ?xs)))])"
      using reversed_obj_run [of "Suc (Suc (Suc (Suc (length h))))"
          "h @ [Matrix rows, Matrix sims, Array ?xs, IntList (A ?xs), IntList (slice_last n (A ?xs))]"
          "slice_last n (A ?xs)"]
      by (simp add: nth_append)
    show ?thesis
      using rows sims
      by (simp add: rank_cluster_obj_def hbind_def t c' fl ar sl rv)
  qed
qed

lemma search_fst_eq:
  "fst (search A q tr n s) =
     (case normalize_l2 [tr (lower q)] of
        Inl e \<Rightarrow> Inl e
      | Inr nq \<Rightarrow>
     (case cosine_similarity nq (cluster_centers s) of
        Inl e \<Rightarrow> Inl e
      | Inr k \<Rightarrow>
     (case argmax (concat k) of
        Inl e \<Rightarrow> Inl e
      | Inr c \<Rightarrow>
     (case cluster_index s c of
        None \<Rightarrow> Inl KeyError
      | Some docs \<Rightarrow>
     (case getitems (normalized_vectors s) docs of
        Inl e \<Rightarrow> Inl e
      | Inr rows \<Rightarrow>
     (case cosine_similarity nq rows of
        Inl e \<Rightarrow> Inl e
      | Inr sims \<Rightarrow>
     (case getitems docs (rev (slice_last n (A (concat sims)))) of
        Inl e \<Rightarrow> Inl e
      | Inr picked \<Rightarrow> getitems (articles_titles s) picked)))))))"
  by (simp add: search_eq search_docs_eq select_cluster_eq rank_cluster_eq
      split: sum.splits option.splits)

lemma search_obj_refines:
  assumes "represents h km nv ci ts s"
  shows "case fst (search_obj A q tr km nv ci ts n h) of
           Inl e \<Rightarrow> fst (search A q tr n s) = Inl e
         | Inr a \<Rightarrow> a < length (snd (search_obj A q tr km nv ci ts n h))
                    \<and> (\<exists>titles. snd (search_obj A q tr km nv ci ts n h) ! a = StrList titles
                          \<and> fst (search A q tr n s) = Inr titles)"
proof -
  from assms obtain cc f where
    km: "km < length h" "h ! km = KMeans cc"
    and cc: "cc < length h" "h ! cc = Matrix (cluster_centers s)"
    and nv: "nv < length h" "h ! nv = Matrix (normalized_vectors s)"
    and ci: "ci < length h" "h ! ci = Dict f"
    and f: "\<And>k. case f k of
               None \<Rightarrow> cluster_index s k = None
             | Some a \<Rightarrow> a < length h \<and> h ! a = IntList (case cluster_index s k of None \<Rightarrow> [] | Some ms \<Rightarrow> ms)
                         \<and> cluster_index s k \<noteq> None"
    and ts: "ts < length h" "h ! ts = StrList (articles_titles s)"
    unfolding represents_def by blast
  let ?qv = "tr (lower q)"
  let ?S = "search_obj A q tr km nv ci ts n h"
  have tr: "transform_obj tr (lower q) h = (Inr (length h), h @ [Matrix [?qv]])"
    by (simp add: transform_obj_def new_def)
  have nz: "normalize_obj True (length h) (h @ [Matrix [?qv]]) =
      (case normalize_l2 [?qv] of
         Inl e \<Rightarrow> (Inl e, h @ [Matrix [?qv]])
       | Inr nq \<Rightarrow> (Inr (Suc (length h)), h @ [Matrix [?qv], Matrix nq]))"
    using normalize_obj_run [of "length h" "h @ [Matrix [?qv]]" "[?qv]"]
    by (simp split: sum.splits)
  show ?thesis
  proof (cases "normalize_l2 [?qv]")
    case (Inl e)
    then have "fst ?S = Inl e"
      using nz by (simp add: search_obj_def hbind_def tr)
    then show ?thesis using Inl by (simp add: search_fst_eq)
  next
    case nq: (Inr nq)
    let ?h2 = "h @ [Matrix [?qv], Matrix nq]"
    have nz': "normalize_obj True (length h) (h @ [Matrix [?qv]]) = (Inr (Suc (length h)), ?h2)"
      using nz nq by simp
    have sel: "select_cluster_obj (Suc (length h)) km ?h2 =
       (case cosine_similarity nq (cluster_centers s) of
          Inl e \<Rightarrow> (Inl e, ?h2)
        | Inr k \<Rightarrow> (argmax (concat k), ?h2 @ [Matrix k]))"
      using km cc by (intro select_cluster_obj_run [where cc = cc]) (simp_all add: nth_append)
    show ?thesis
    proof (cases "cosine_similarity nq (cluster_centers s)")
      case (Inl e)
      then have "fst ?S = Inl e"
        using sel by (simp add: search_obj_def hbind_def tr nz')
      then show ?thesis using nq Inl by (simp add: search_fst_eq)
    next
      case k: (Inr k)
      let ?h3 = "h @ [Matrix [?qv], Matrix nq, Matrix k]"
      have sel': "select_cluster_obj (Suc (length h)) km ?h2 = (argmax (concat k), ?h3)"
        using sel k by simp
      show ?thesis
      proof (cases "argmax (concat k)")
        case (Inl e)
        then have "fst ?S = Inl e"
          using sel' by (simp add: search_obj_def hbind_def tr nz')
        then show ?thesis using nq k Inl by (simp add: search_fst_eq)
      next
        case c: (Inr c)
        have dg: "dict_getitem ci c ?h3 =
            (case f c of None \<Rightarrow> (Inl KeyError, ?h3) | Some a \<Rightarrow> (Inr a, ?h3))"
          using ci by (intro dict_getitem_run) (simp_all add: nth_append)
        show ?thesis
        proof (cases "f c")
          case None
          then have "cluster_index s c = None" using f [of c] by simp
          moreover have "fst ?S = Inl KeyError"
            using sel' c dg None by (simp add: search_obj_def hbind_def tr nz')
          ultimately show ?thesis using nq k c by (simp add: search_fst_eq)
        next
          case (Some a)
          then obtain docs where a: "a < length h" "h ! a = IntList docs"
            and docs: "cluster_index s c = Some docs"
            using f [of c] by auto
          have dg': "dict_getitem ci c ?h3 = (Inr a, ?h3)"
            using dg Some by simp
          let ?V = "normalized_vectors s"
          have rk: "rank_cluster_obj A (Suc (length h)) nv a n ?h3 =
             (case getitems ?V docs of
                Inl e \<Rightarrow> (Inl e, ?h3)
              | Inr rows \<Rightarrow>
                  (case cosine_similarity nq rows of
                     Inl e \<Rightarrow> (Inl e, ?h3 @ [Matrix rows])
                   | Inr sims \<Rightarrow>
                       (Inr (length ?h3 + 5),
                        ?h3 @ [Matrix rows, Matrix sims, Array (concat sims), IntList (A (concat sims)),
                             IntList (slice_last n (A (concat sims))),
                             IntList (rev (slice_last n (A (concat sims))))])))"
            using nv a by (intro rank_cluster_obj_run) (simp_all add: nth_append)
          show ?thesis
          proof (cases "getitems ?V docs")
            case (Inl e)
            then have "fst ?S = Inl e"
              using sel' c dg' rk by (simp add: search_obj_def hbind_def tr nz')
            then show ?thesis using nq k c docs Inl by (simp add: search_fst_eq)
          next
            case rows: (Inr rows)
            show ?thesis
            proof (cases "cosine_similarity nq rows")
              case (Inl e)
              then have "fst ?S = Inl e"
                using sel' c dg' rk rows by (simp add: search_obj_def hbind_def tr nz')
              then show ?thesis using nq k c docs rows Inl by (simp add: search_fst_eq)
            next
              case sims: (Inr sims)
              let ?idx = "rev (slice_last n (A (concat sims)))"
              let ?h9 = "h @ [Matrix [?qv], Matrix nq, Matrix k, Matrix rows, Matrix sims,
                    Array (concat sims), IntList (A (concat sims)),
                    IntList (slice_last n (A (concat sims))), IntList ?idx]"
              have rk': "rank_cluster_obj A (Suc (length h)) nv a n ?h3 = (Inr (length h + 8), ?h9)"
                using rk rows sims by simp
              have tt: "titles_obj ts a (length h + 8) ?h9 =
                 (case getitems docs ?idx of
                    Inl e \<Rightarrow> (Inl e, ?h9)
                  | Inr picked \<Rightarrow>
                      (case getitems (articles_titles s) picked of
                         Inl e \<Rightarrow> (Inl e, ?h9)
                       | Inr r \<Rightarrow> (Inr (length ?h9), ?h9 @ [StrList r])))"
                using ts a by (intro titles_obj_run) (simp_all add: nth_append)
              have S: "?S = titles_obj ts a (length h + 8) ?h9"
                using sel' c dg' rk' by (simp add: search_obj_def hbind_def tr nz')
              have P: "fst (search A q tr n s) =
                 (case getitems docs ?idx of
                    Inl e \<Rightarrow> Inl e
                  | Inr picked \<Rightarrow> getitems (articles_titles s) picked)"
                using nq k c docs rows sims by (simp add: search_fst_eq)
              show ?thesis
                unfolding S tt P
                by (simp add: nth_append split: sum.splits)
            qed
          qed
        qed
      qed
    qed
  qed
qed

lemma represents_extend:
  assumes "represents h km nv ci ts s"
  shows "represents (h @ fresh) km nv ci ts s"
proof -
  from assms obtain cc f where
    km: "km < length h" "h ! km = KMeans cc"
    and cc: "cc < length h" "h ! cc = Matrix (cluster_centers s)"
    and nv: "nv < length h" "h ! nv = Matrix (normalized_vectors s)"
    and ci: "ci < length h" "h ! ci = Dict f"
    and f: "\<forall>k. case f k of
               None \<Rightarrow> cluster_index s k = None
             | Some a \<Rightarrow> a < length h \<and> h ! a = IntList (case cluster_index s k of None \<Rightarrow> [] | Some ms \<Rightarrow> ms)
                         \<and> cluster_index s k \<noteq> None"
    and ts: "ts < length h" "h ! ts = StrList (articles_titles s)"
    unfolding represents_def by blast
  have f': "\<forall>k. case f k of
               None \<Rightarrow> cluster_index s k = None
             | Some a \<Rightarrow> a < length (h @ fresh)
                  \<and> (h @ fresh) ! a = IntList (case cluster_index s k of None \<Rightarrow> [] | Some ms \<Rightarrow> ms)
                  \<and> cluster_index s k \<noteq> None"
  proof
    fix k
    show "case f k of
               None \<Rightarrow> cluster_index s k = None
             | Some a \<Rightarrow> a < length (h @ fresh)
                  \<and> (h @ fresh) ! a = IntList (case cluster_index s k of None \<Rightarrow> [] | Some ms \<Rightarrow> ms)
                  \<and> cluster_index s k \<noteq> None"
      using f [rule_format, of k] by (cases "f k") (simp_all add: nth_append)
  qed
  show ?thesis
    unfolding represents_def
    apply (rule exI [of _ cc], rule exI [of _ f])
    using km cc nv ci ts f' by (simp add: nth_append)
qed

section \<open>The example corpora, evaluated\<close>

lemma lower_Cat: "lower ''Cat'' = ''cat''"
  by code_simp

lemma lower_Kitten: "lower ''Kitten'' = ''kitten''"
  by code_simp

lemma lower_bank: "lower ''bank'' = ''bank''"
  by code_simp

lemma toy_Cat: "toy_transform (lower ''Cat'') = [1, 0]"
  by (simp add: lower_Cat toy_transform_def)

lemma toy_Kitten: "toy_transform (lower ''Kitten'') = [0, 0]"
  by (simp add: lower_Kitten toy_transform_def)

lemma normalize_row_10: "normalize_row [1, 0] = [1, 0]" "normalize_row [0, 1] = [0, 1]"
  "normalize_row [0, 0] = [0, 0]"
  by (simp_all add: normalize_row_def row_norm_def handle_zeros_in_scale_def)

lemma cosine_values:
  "cosine [1, 0] [1, 0] = 1" "cosine [1, 0] [0, 1] = 0" "cosine [0, 1] [1, 0] = 0"
  "cosine [0, 1] [0, 1] = 1" "cosine [0, 0] [1, 0] = 0" "cosine [0, 0] [0, 1] = 0"
  by (simp_all add: cosine_def normalize_row_10 dot_product_def)

lemma query_similarity_Cat:
  "query_similarity toy_transform ''Cat'' [1, 0] = 1"
  "query_similarity toy_transform ''Cat'' [0, 1] = 0"
  by (simp_all add: query_similarity_def toy_Cat normalize_row_10 cosine_values)

lemma query_similarity_Kitten:
  "query_similarity toy_transform ''Kitten'' [1, 0] = 0"
  "query_similarity toy_transform ''Kitten'' [0, 1] = 0"
  by (simp_all add: query_similarity_def toy_Kitten normalize_row_10 cosine_values)

lemma sqrt_25: "sqrt 25 = 5"
  by (rule real_sqrt_unique) simp_all

lemma row_norm_34: "row_norm [3, 4] = 5"
  by (simp add: row_norm_def sqrt_25)

lemma index_001: "create_cluster_index toy_labels 0 = Some [0, 1]"
  "create_cluster_index toy_labels 1 = Some [2]"
  by (simp_all add: create_cluster_index_def index_step_def toy_labels_def)

lemma index_00: "create_cluster_index [0, 0] 0 = Some [0, 1]"
  "create_cluster_index [0, 0] (Suc 0) = None"
  by (simp_all add: create_cluster_index_def index_step_def)

lemma index_skewed: "create_cluster_index skewed_labels 0 = Some [0]"
  by (simp add: create_cluster_index_def index_step_def skewed_labels_def)

lemma argsort_stable_1: "argsort_stable [a] = [0]"
  by (simp add: argsort_stable_def)

lemma argsort_stable_2: "argsort_stable [a, a] = [0, 1]"
  by (simp add: argsort_stable_def)

lemma two_topics_post_fit: "post_fit 2 toy_labels two_topics"
  by (simp add: post_fit_def two_topics_def) (simp add: toy_labels_def)

lemma one_topic_post_fit: "post_fit 2 [0, 0] one_topic"
  by (simp add: post_fit_def one_topic_def)

lemma two_topics_index_0: "cluster_index two_topics 0 = Some [0, 1]"
  by (simp add: two_topics_def index_001)

lemma select_Cat: "fst (select_cluster [normalize_row (toy_transform (lower ''Cat''))] two_topics) = Inr 0"
  by (simp add: lower_Cat toy_transform_def normalize_row_10 select_cluster_single two_topics_def
      check_array_def cosine_values argmax_def)

lemma select_Kitten:
  "fst (select_cluster [normalize_row (toy_transform (lower ''Kitten''))] two_topics) = Inr 0"
  by (simp add: toy_Kitten normalize_row_10 select_cluster_single two_topics_def
      check_array_def cosine_values argmax_def)

lemma search_docs_Cat:
  "fst (search_docs argsort_stable ''Cat'' toy_transform 5 two_topics) = Inr [1, 0]"
  by (simp add: search_docs_eq lower_Cat toy_transform_def normalize_l2_single normalize_row_10
      select_cluster_single rank_cluster_single two_topics_def check_array_def cosine_values
      argmax_def index_001 argsort_stable_2 slice_last_def getitems_def)

lemma search_docs_Cat_0:
  "fst (search_docs argsort_stable ''Cat'' toy_transform 0 two_topics) = Inr [1, 0]"
  by (simp add: search_docs_eq lower_Cat toy_transform_def normalize_l2_single normalize_row_10
      select_cluster_single rank_cluster_single two_topics_def check_array_def cosine_values
      argmax_def index_001 argsort_stable_2 slice_last_def getitems_def)

lemma search_Cat:
  "fst (search argsort_stable ''Cat'' toy_transform 5 two_topics) = Inr [''dog'', ''cat'']"
  by (simp add: search_eq search_docs_Cat) (simp add: two_topics_def getitems_def)

lemma search_Kitten:
  "fst (search argsort_stable ''Kitten'' toy_transform 5 two_topics) = Inr [''dog'', ''cat'']"
  by (simp add: search_eq search_docs_eq lower_Kitten toy_transform_def normalize_l2_single normalize_row_10
      select_cluster_single rank_cluster_single two_topics_def check_array_def cosine_values
      argmax_def index_001 argsort_stable_2 slice_last_def getitems_def)

lemma select_bank_one_topic:
  "fst (select_cluster [normalize_row (toy_transform (lower ''bank''))] one_topic) = Inr 1"
  by (simp add: lower_bank toy_transform_def normalize_row_10 select_cluster_single one_topic_def
      check_array_def cosine_values argmax_def)

lemma search_bank_one_topic:
  "fst (search argsort_stable ''bank'' toy_transform 5 one_topic) = Inl KeyError"
  by (simp add: search_eq search_docs_eq lower_bank toy_transform_def normalize_l2_single normalize_row_10
      select_cluster_single one_topic_def check_array_def cosine_values
      argmax_def index_00)

lemma select_Cat_skewed:
  "fst (select_cluster [normalize_row (toy_transform (lower ''Cat''))] skewed) = Inr 0"
  by (simp add: toy_Cat normalize_row_10 select_cluster_single skewed_def
      check_array_def cosine_values argmax_def)

lemma search_docs_Cat_skewed:
  "fst (search_docs argsort_stable ''Cat'' toy_transform 5 skewed) = Inr [0]"
  by (simp add: search_docs_eq lower_Cat toy_transform_def normalize_l2_single normalize_row_10
      select_cluster_single rank_cluster_single skewed_def check_array_def cosine_values
      argmax_def index_skewed argsort_stable_1 slice_last_def getitems_def)

lemma search_Cat_skewed:
  "fst (search argsort_stable ''Cat'' toy_transform 5 skewed) = Inr [''bank'']"
  by (simp add: search_eq search_docs_Cat_skewed) (simp add: skewed_def getitems_def)

lemma select_Cat_mixed:
  "fst (select_cluster [normalize_row (toy_transform (lower ''Cat''))] mixed) = Inr 0"
  by (simp add: toy_Cat normalize_row_10 select_cluster_single mixed_def
      check_array_def cosine_values argmax_def)

lemma argsort_stable_01: "argsort_stable [0, 1] = [0, 1]"
  by (simp add: argsort_stable_def)

lemma search_docs_Cat_mixed_1:
  "fst (search_docs argsort_stable ''Cat'' toy_transform 1 mixed) = Inr [1]"
  by (simp add: search_docs_eq lower_Cat toy_transform_def normalize_l2_single normalize_row_10
      select_cluster_single rank_cluster_single mixed_def check_array_def cosine_values
      argmax_def index_00 argsort_stable_01 slice_last_def getitems_def)

lemma search_docs_Cat_mixed_0:
  "fst (search_docs argsort_stable ''Cat'' toy_transform 0 mixed) = Inr [1, 0]"
  by (simp add: search_docs_eq lower_Cat toy_transform_def normalize_l2_single normalize_row_10
      select_cluster_single rank_cluster_single mixed_def check_array_def cosine_values
      argmax_def index_00 argsort_stable_01 slice_last_def getitems_def)

lemma toy_heap_represents: "represents toy_heap 0 2 3 6 two_topics"
  unfolding represents_def
  apply (rule exI [of _ 1], rule exI [of _ "[0 \<mapsto> 4, 1 \<mapsto> 5]"])
  apply (simp add: toy_heap_def two_topics_def create_cluster_index_lookup toy_labels_def)
  done

text \<open>The in-place form of \<open>normalize\<close> does overwrite its argument.\<close>

lemma normalize_in_place_writes:
  "snd (normalize_obj False 0 [Matrix [[3, 4]]]) = [Matrix [[3 / 5, 4 / 5]]]"
  by (simp add: normalize_obj_def get_matrix_def deref_def hbind_def hreturn_def hlift_def
      assign_def normalize_l2_single normalize_row_def row_norm_34 handle_zeros_in_scale_def)

section \<open>The result stays inside the selected cluster\<close>

text \<open>
  C1: whenever \<open>search\<close> returns titles, they are the titles of document indices that
  all lie in the member list of the one cluster selected from the centroids; with the
  cluster index built from an assignment, every returned document is assigned to that
  cluster, so a document of any other cluster is never returned, whatever its similarity
  to the query.
\<close>

theorem search_within_selected_cluster:
  assumes "fst (search A q tr n s) = Inr titles"
  shows "\<exists>c docs ds.
      fst (select_cluster [normalize_row (tr (lower q))] s) = Inr c
    \<and> cluster_index s c = Some docs
    \<and> fst (search_docs A q tr n s) = Inr ds
    \<and> titles = map ((!) (articles_titles s)) ds
    \<and> set ds \<subseteq> set docs
    \<and> (\<forall>clusters. cluster_index s = create_cluster_index clusters \<longrightarrow>
          (\<forall>d\<in>set ds. d < length clusters \<and> clusters ! d = c))"
proof -
  from assms obtain ds where ds: "fst (search_docs A q tr n s) = Inr ds"
    and t: "getitems (articles_titles s) ds = Inr titles"
    by (auto simp: search_eq split: sum.splits)
  from search_docs_InrD [OF ds] obtain c docs where
    sel: "fst (select_cluster [normalize_row (tr (lower q))] s) = Inr c"
    and ci: "cluster_index s c = Some docs"
    and g: "getitems docs (rev (slice_last n
           (A (map (\<lambda>d. query_similarity tr q (normalized_vectors s ! d)) docs)))) = Inr ds"
    by blast
  from g have sub: "set ds \<subseteq> set docs"
    by (auto simp: getitems_def split: if_splits)
  have "\<forall>d\<in>set ds. d < length clusters \<and> clusters ! d = c"
    if "cluster_index s = create_cluster_index clusters" for clusters
  proof -
    have "docs = filter (\<lambda>j. clusters ! j = c) [0..<length clusters]"
      using ci that by (simp add: create_cluster_index_lookup split: if_splits)
    then show ?thesis using sub by auto
  qed
  moreover from t have "titles = map ((!) (articles_titles s)) ds"
    by (auto simp: getitems_def split: if_splits)
  ultimately show ?thesis using sel ci ds sub by blast
qed

text \<open>
  In \<open>skewed\<close> document 1 is more similar to the query than the returned document 0,
  and is left out because it belongs to cluster 1.
\<close>

theorem search_within_selected_cluster_witness:
  "fst (search argsort_stable ''Cat'' toy_transform 5 skewed) = Inr [''bank'']
   \<and> fst (select_cluster [normalize_row (toy_transform (lower ''Cat''))] skewed) = Inr 0
   \<and> cluster_index skewed 0 = Some [0]
   \<and> skewed_labels ! 1 = 1
   \<and> query_similarity toy_transform ''Cat'' (normalized_vectors skewed ! 0)
       < query_similarity toy_transform ''Cat'' (normalized_vectors skewed ! 1)
   \<and> (\<exists>ds. fst (search_docs argsort_stable ''Cat'' toy_transform 5 skewed) = Inr ds
          \<and> [''bank''] = map ((!) (articles_titles skewed)) ds
          \<and> set ds \<subseteq> set [0]
          \<and> 1 \<notin> set ds)"
proof -
  note t = search_within_selected_cluster [OF search_Cat_skewed]
  have ci: "cluster_index skewed 0 = Some [0]"
    by (simp add: skewed_def index_skewed)
  have l: "skewed_labels ! 1 = 1" by (simp add: skewed_labels_def)
  have sims: "query_similarity toy_transform ''Cat'' (normalized_vectors skewed ! 0)
       < query_similarity toy_transform ''Cat'' (normalized_vectors skewed ! 1)"
    by (simp add: skewed_def query_similarity_Cat)
  from t obtain c docs ds where
    "fst (select_cluster [normalize_row (toy_transform (lower ''Cat''))] skewed) = Inr c"
    "cluster_index skewed c = Some docs"
    and ds: "fst (search_docs argsort_stable ''Cat'' toy_transform 5 skewed) = Inr ds"
    "[''bank''] = map ((!) (articles_titles skewed)) ds"
    and sub: "set ds \<subseteq> set docs"
    by (elim exE conjE) (rule that; assumption)
  then have "c = 0" "docs = [0]"
    using select_Cat_skewed ci by simp_all
  with sub have r: "set ds \<subseteq> set [0]" "1 \<notin> set ds" by auto
  show ?thesis
    by (intro conjI exI [of _ ds]) (fact search_Cat_skewed select_Cat_skewed ci l sims ds r)+
qed

section \<open>A query without a known term\<close>

text \<open>
  C2 does not hold: the query ''Kitten'' has no term of the vocabulary, its vector is
  all-zero, and \<open>search\<close> returns two titles.
\<close>

theorem zero_query_counterexample:
  "toy_transform (lower ''Kitten'') = [0, 0]
   \<and> fst (search argsort_stable ''Kitten'' toy_transform 5 two_topics) = Inr [''dog'', ''cat'']"
  using toy_Kitten search_Kitten by simp

text \<open>
  C2, amended: for a query whose transformed vector is all-zero, normalisation keeps the
  zero vector and raises nothing; every centroid has similarity 0, so cluster 0 is
  selected; when cluster 0 has members, \<open>search\<close> returns titles of members of
  cluster 0, and for \<open>top_n \<ge> 1\<close> exactly \<open>min top_n (size of cluster 0)\<close> of them,
  a non-empty list.
\<close>

theorem zero_query_ranks_cluster_0:
  assumes "argsort_ok A" "post_fit D clusters s" "length (tr (lower q)) = D"
    and "\<forall>x\<in>set (tr (lower q)). x = 0"
    and "cluster_index s 0 = Some docs"
  shows "normalize_l2 [tr (lower q)] = Inr [tr (lower q)]
     \<and> fst (select_cluster [normalize_row (tr (lower q))] s) = Inr 0
     \<and> (\<exists>ds. fst (search_docs A q tr n s) = Inr ds
           \<and> fst (search A q tr n s) = Inr (map ((!) (articles_titles s)) ds)
           \<and> set ds \<subseteq> set docs
           \<and> (0 < n \<longrightarrow> ds \<noteq> [] \<and> length ds = min (nat n) (length docs)))"
proof -
  let ?qv = "tr (lower q)"
  let ?f = "\<lambda>d. query_similarity tr q (normalized_vectors s ! d)"
  let ?ds = "map ((!) docs) (rev (slice_last n (A (map ?f docs))))"
  have q: "?qv \<noteq> []" using assms(2,3) by (auto simp: post_fit_def)
  have nz: "normalize_row ?qv = ?qv" using assms(4) by (rule normalize_row_zero)
  have n: "normalize_l2 [?qv] = Inr [?qv]"
    using q nz by (simp add: normalize_l2_single)
  have ca: "check_array (cluster_centers s) \<and> length (hd (cluster_centers s)) = D"
    using assms(2) check_array_rows [of "cluster_centers s" D] by (simp add: post_fit_def)
  have "argmax (map (cosine ?qv) (cluster_centers s)) = Inr 0"
    using assms(2,4) by (intro argmax_constant [where a = 0]) (auto simp: cosine_zero post_fit_def)
  then have sel: "fst (select_cluster [normalize_row ?qv] s) = Inr 0"
    using q ca assms(3) by (simp add: nz select_cluster_single)
  note m = post_fit_members [OF assms(2,5)]
  have "fst (search_docs A q tr n s) = getitems docs (rev (slice_last n (A (map ?f docs))))"
    using q sel assms(5) m(2) m(4) assms(3) by (intro search_docs_InrI) auto
  then have ds: "fst (search_docs A q tr n s) = Inr ?ds"
    by (simp add: getitems_ranked [OF assms(1)])
  have sub: "set ?ds \<subseteq> set docs"
    using ranked_in_range [OF assms(1), of n ?f docs] by auto
  have t: "fst (search A q tr n s) = Inr (map ((!) (articles_titles s)) ?ds)"
    using m(5) sub by (auto simp: search_eq ds getitems_def)
  have len: "length ?ds = min (nat n) (length docs)" if "0 < n"
    using that by (simp add: length_slice_last_pos argsort_length [OF assms(1)])
  have ne: "?ds \<noteq> []" if "0 < n"
  proof
    assume "?ds = []"
    then have "length ?ds = 0" by (simp only: list.size)
    then have "min (nat n) (length docs) = 0" using len [OF that] by (simp only:)
    moreover have "0 < nat n" "0 < length docs" using that m(2) by simp_all
    ultimately show False by (simp add: min_def split: if_splits)
  qed
  from len ne ds t sub n sel show ?thesis by blast
qed

theorem zero_query_ranks_cluster_0_witness:
  "argsort_ok argsort_stable \<and> post_fit 2 toy_labels two_topics
   \<and> toy_transform (lower ''Kitten'') = [0, 0]
   \<and> cluster_index two_topics 0 = Some [0, 1]
   \<and> fst (select_cluster [normalize_row (toy_transform (lower ''Kitten''))] two_topics) = Inr 0
   \<and> (\<exists>ds. fst (search argsort_stable ''Kitten'' toy_transform 5 two_topics)
            = Inr (map ((!) (articles_titles two_topics)) ds)
          \<and> ds \<noteq> [] \<and> length ds = 2)"
proof -
  have ci: "cluster_index two_topics 0 = Some [0, 1]"
    by (simp add: two_topics_def index_001)
  have z: "\<forall>x\<in>set (toy_transform (lower ''Kitten'')). x = 0"
    by (simp add: toy_Kitten)
  have l: "length (toy_transform (lower ''Kitten'')) = 2"
    by (simp add: toy_Kitten)
  note t = zero_query_ranks_cluster_0 [where tr = toy_transform and q = "''Kitten''" and n = 5,
      OF argsort_stable_ok two_topics_post_fit l z ci]
  from t have "\<exists>ds. fst (search argsort_stable ''Kitten'' toy_transform 5 two_topics)
            = Inr (map ((!) (articles_titles two_topics)) ds) \<and> ds \<noteq> [] \<and> length ds = 2"
    by auto
  with t argsort_stable_ok two_topics_post_fit toy_Kitten ci show ?thesis by blast
qed

section \<open>A cluster without documents\<close>

text \<open>
  C3 does not hold: with two centroids and both documents assigned to cluster 0, the
  index has no entry for cluster 1; the lookup raises KeyError, and so does
  \<open>search\<close> for the query ''bank'', which selects cluster 1.
\<close>

theorem empty_cluster_counterexample:
  "length (cluster_centers one_topic) = 2
   \<and> create_cluster_index [0, 0] 1 = None
   \<and> fst (cluster_index_getitem 1 one_topic) = Inl KeyError
   \<and> fst (select_cluster [normalize_row (toy_transform (lower ''bank''))] one_topic) = Inr 1
   \<and> fst (search argsort_stable ''bank'' toy_transform 5 one_topic) = Inl KeyError"
  using select_bank_one_topic search_bank_one_topic index_00
  by (simp add: cluster_index_getitem_def one_topic_def)

text \<open>
  C3, amended: the cluster index has an entry exactly for the cluster ids that at least
  one document is assigned to, and every entry is a non-empty list; for a cluster that
  received no document the lookup fails with KeyError, and \<open>search\<close> fails with
  KeyError when it selects such a cluster.
\<close>

theorem empty_cluster_has_no_entry:
  "(create_cluster_index clusters c = None \<longleftrightarrow> c \<notin> set clusters)
   \<and> (\<forall>members. create_cluster_index clusters c = Some members \<longrightarrow> members \<noteq> [])
   \<and> (cluster_index s = create_cluster_index clusters \<and> c \<notin> set clusters \<longrightarrow>
         fst (cluster_index_getitem c s) = Inl KeyError
       \<and> (tr (lower q) \<noteq> [] \<and> fst (select_cluster [normalize_row (tr (lower q))] s) = Inr c \<longrightarrow>
             fst (search A q tr n s) = Inl KeyError))"
proof (intro conjI allI impI)
  show "create_cluster_index clusters c = None \<longleftrightarrow> c \<notin> set clusters"
    by (simp add: create_cluster_index_lookup)
next
  fix members assume m: "create_cluster_index clusters c = Some members"
  then have "c \<in> set clusters" and d: "members = filter (\<lambda>j. clusters ! j = c) [0..<length clusters]"
    by (simp_all add: create_cluster_index_lookup split: if_splits)
  then obtain i where "i < length clusters" "clusters ! i = c"
    by (auto simp: in_set_conv_nth)
  then have "i \<in> set members" by (simp add: d)
  then show "members \<noteq> []" by auto
next
  assume a: "cluster_index s = create_cluster_index clusters \<and> c \<notin> set clusters"
  then have none: "cluster_index s c = None"
    by (simp add: create_cluster_index_lookup)
  then show "fst (cluster_index_getitem c s) = Inl KeyError"
    by (simp add: cluster_index_getitem_def)
  assume "tr (lower q) \<noteq> [] \<and> fst (select_cluster [normalize_row (tr (lower q))] s) = Inr c"
  then show "fst (search A q tr n s) = Inl KeyError"
    using none by (simp add: search_eq search_docs_eq normalize_l2_single)
qed

theorem empty_cluster_has_no_entry_witness:
  "cluster_index one_topic = create_cluster_index [0, 0] \<and> 1 \<notin> set [0, 0 :: nat]
   \<and> toy_transform (lower ''bank'') \<noteq> []
   \<and> fst (select_cluster [normalize_row (toy_transform (lower ''bank''))] one_topic) = Inr 1
   \<and> create_cluster_index [0, 0] 0 = Some [0, 1]
   \<and> [0, 1 :: nat] \<noteq> []
   \<and> fst (cluster_index_getitem 1 one_topic) = Inl KeyError
   \<and> fst (search argsort_stable ''bank'' toy_transform 5 one_topic) = Inl KeyError"
proof -
  note t = empty_cluster_has_no_entry [of "[0, 0]" 1 one_topic toy_transform "''bank''" argsort_stable 5]
  have a: "cluster_index one_topic = create_cluster_index [0, 0]" by (simp add: one_topic_def)
  have b: "1 \<notin> set [0, 0 :: nat]" by simp
  have c: "toy_transform (lower ''bank'') \<noteq> []" by (simp add: lower_bank toy_transform_def)
  from t a b have "fst (cluster_index_getitem 1 one_topic) = Inl KeyError" by blast
  moreover from t a b c select_bank_one_topic
  have "fst (search argsort_stable ''bank'' toy_transform 5 one_topic) = Inl KeyError" by blast
  moreover from t index_00(1) have "[0, 1 :: nat] \<noteq> []" by blast
  ultimately show ?thesis using a b c select_bank_one_topic index_00(1) by blast
qed

section \<open>The order of the result\<close>

text \<open>
  C4 does not hold: documents 0 and 1 of \<open>two_topics\<close> are equally similar to the query
  ''Cat'', and an order-preserving argsort followed by the reversal returns document 1
  before document 0.
\<close>

theorem tie_order_counterexample:
  "cluster_index two_topics 0 = Some [0, 1]
   \<and> query_similarity toy_transform ''Cat'' (normalized_vectors two_topics ! 0)
     = query_similarity toy_transform ''Cat'' (normalized_vectors two_topics ! 1)
   \<and> fst (search_docs argsort_stable ''Cat'' toy_transform 5 two_topics) = Inr [1, 0]
   \<and> fst (search argsort_stable ''Cat'' toy_transform 5 two_topics) = Inr [''dog'', ''cat'']"
  using two_topics_index_0 search_docs_Cat search_Cat
  by (simp add: two_topics_def)

text \<open>
  C4, amended: with any argsort that sorts ascending, the documents \<open>search\<close> ranks for
  \<open>top_n \<ge> 1\<close> are the first \<open>top_n\<close> entries (all of them, if there are fewer) of the
  ranking of all members of the selected cluster in descending order of their cosine
  similarity to the query, the ranking \<open>search\<close> returns for \<open>top_n = 0\<close>; so they are in
  descending order of similarity and at most \<open>top_n\<close>. Nothing orders documents of equal
  similarity by ascending index.
\<close>

theorem search_sorted_descending:
  assumes "argsort_ok A" "fst (search_docs A q tr n s) = Inr ds"
  shows "\<exists>c docs ranking.
       fst (select_cluster [normalize_row (tr (lower q))] s) = Inr c
     \<and> cluster_index s c = Some docs
     \<and> fst (search_docs A q tr 0 s) = Inr ranking
     \<and> mset ranking = mset docs
     \<and> sorted_wrt (\<ge>) (map (\<lambda>d. query_similarity tr q (normalized_vectors s ! d)) ranking)
     \<and> (0 < n \<longrightarrow> ds = take (nat n) ranking)
     \<and> sorted_wrt (\<ge>) (map (\<lambda>d. query_similarity tr q (normalized_vectors s ! d)) ds)
     \<and> (0 < n \<longrightarrow> length ds \<le> nat n)"
proof -
  let ?f = "\<lambda>d. query_similarity tr q (normalized_vectors s ! d)"
  from search_docs_InrD [OF assms(2)] obtain c docs where
    q: "tr (lower q) \<noteq> []"
    and sel: "fst (select_cluster [normalize_row (tr (lower q))] s) = Inr c"
    and ci: "cluster_index s c = Some docs"
    and ne: "docs \<noteq> []"
    and rows: "\<forall>d\<in>set docs. d < length (normalized_vectors s)
            \<and> length (normalized_vectors s ! d) = length (tr (lower q))"
    and g: "getitems docs (rev (slice_last n (A (map ?f docs)))) = Inr ds"
    by blast
  define ranking where "ranking = map ((!) docs) (rev (A (map ?f docs)))"
  have ds: "ds = map ((!) docs) (rev (slice_last n (A (map ?f docs))))"
    using g by (simp add: getitems_ranked [OF assms(1)])
  have "fst (search_docs A q tr 0 s) = getitems docs (rev (slice_last 0 (A (map ?f docs))))"
    using q sel ci ne rows by (rule search_docs_InrI)
  moreover have r0: "ranking = map ((!) docs) (rev (slice_last 0 (A (map ?f docs))))"
    by (simp add: ranking_def slice_last_all)
  ultimately have full: "fst (search_docs A q tr 0 s) = Inr ranking"
    by (simp only: getitems_ranked [OF assms(1)])
  have ms: "mset ranking = mset docs"
    unfolding r0 using assms(1) by (intro ranked_all) auto
  have sr: "sorted_wrt (\<ge>) (map ?f ranking)"
    unfolding r0 by (rule ranked_descending [OF assms(1)])
  have tk: "ds = take (nat n) ranking" if "0 < n"
    unfolding ds ranking_def using that by (simp add: rev_slice_last take_map)
  have sd: "sorted_wrt (\<ge>) (map ?f ds)"
    unfolding ds by (rule ranked_descending [OF assms(1)])
  have len: "length ds \<le> nat n" if "0 < n"
    unfolding ds using that by (simp add: length_slice_last_pos)
  from sel ci full ms sr tk sd len show ?thesis by blast
qed

text \<open>
  In \<open>mixed\<close> the cluster ranks as document 1 (similarity 1), then document 0
  (similarity 0); \<open>top_n = 1\<close> keeps document 1.
\<close>

theorem search_sorted_descending_witness:
  "argsort_ok argsort_stable
   \<and> fst (search_docs argsort_stable ''Cat'' toy_transform 1 mixed) = Inr [1]
   \<and> fst (search_docs argsort_stable ''Cat'' toy_transform 0 mixed) = Inr [1, 0]
   \<and> query_similarity toy_transform ''Cat'' (normalized_vectors mixed ! 1) = 1
   \<and> query_similarity toy_transform ''Cat'' (normalized_vectors mixed ! 0) = 0
   \<and> [1 :: nat] = take (nat 1) [1, 0]
   \<and> sorted_wrt (\<ge>)
        (map (\<lambda>d. query_similarity toy_transform ''Cat'' (normalized_vectors mixed ! d)) [1, 0])
   \<and> length [1 :: nat] \<le> nat 1"
proof -
  note t = search_sorted_descending [OF argsort_stable_ok search_docs_Cat_mixed_1]
  from t obtain ranking where
    r: "fst (search_docs argsort_stable ''Cat'' toy_transform 0 mixed) = Inr ranking"
    and s: "sorted_wrt (\<ge>)
        (map (\<lambda>d. query_similarity toy_transform ''Cat'' (normalized_vectors mixed ! d)) ranking)"
    and k: "(0::int) < 1 \<longrightarrow> [1 :: nat] = take (nat 1) ranking"
    and l: "(0::int) < 1 \<longrightarrow> length [1 :: nat] \<le> nat 1"
    by (elim exE conjE) (rule that; assumption)
  have rk: "ranking = [1, 0]" using r search_docs_Cat_mixed_0 by simp
  have one: "(0::int) < 1" by simp
  have a: "[1 :: nat] = take (nat 1) [1, 0]" using k one rk by blast
  have b: "length [1 :: nat] \<le> nat 1" using l one by blast
  have c: "sorted_wrt (\<ge>)
        (map (\<lambda>d. query_similarity toy_transform ''Cat'' (normalized_vectors mixed ! d)) [1, 0])"
    using s rk by simp
  have d: "query_similarity toy_transform ''Cat'' (normalized_vectors mixed ! 1) = 1"
    "query_similarity toy_transform ''Cat'' (normalized_vectors mixed ! 0) = 0"
    by (simp_all add: mixed_def query_similarity_Cat)
  show ?thesis
    by (intro conjI) (fact argsort_stable_ok search_docs_Cat_mixed_1 search_docs_Cat_mixed_0 a b c d)+
qed

section \<open>Normalisation\<close>

text \<open>
  C5 does not hold: normalising the all-zero row returns the all-zero row, not an error.
\<close>

theorem normalize_zero_counterexample:
  "normalize_l2 [[0, 0]] = Inr [[0, 0]]"
  by (simp add: normalize_l2_single normalize_row_10)

text \<open>
  C5, amended: for a non-empty row, \<open>normalize\<close> succeeds; it divides every component
  by the Euclidean norm when the norm is not zero, and returns the row unchanged when
  the norm is zero, which is exactly when every component is zero.
\<close>

theorem normalize_divides_by_norm:
  assumes "v \<noteq> []"
  shows "normalize_l2 [v] = Inr [if row_norm v = 0 then v else map (\<lambda>a. a / row_norm v) v]
       \<and> (row_norm v = 0 \<longleftrightarrow> (\<forall>a\<in>set v. a = 0))"
  using assms normalize_row_zero [of v] normalize_row_nonzero [of v] row_norm_zero_iff [of v]
  by (auto simp: normalize_l2_single)

theorem normalize_divides_by_norm_witness:
  "normalize_l2 [[3, 4]] = Inr [[3 / 5, 4 / 5]]"
  using normalize_divides_by_norm [of "[3, 4]"] by (simp add: row_norm_34)

section \<open>The selected cluster\<close>

text \<open>
  C6: for a non-empty query vector and at least one centroid, all of the query's
  dimension, the selection succeeds and returns a cluster id whose centroid has maximum
  cosine similarity to the query, and every centroid with a lower id has strictly
  smaller similarity: among tied maxima the lowest id is selected.
\<close>

theorem select_cluster_argmax:
  assumes "tr (lower q) \<noteq> []" "cluster_centers s \<noteq> []"
    and "\<forall>r\<in>set (cluster_centers s). length r = length (tr (lower q))"
  shows "\<exists>c. fst (select_cluster [normalize_row (tr (lower q))] s) = Inr c
     \<and> c < length (cluster_centers s)
     \<and> (\<forall>j<length (cluster_centers s).
           query_similarity tr q (cluster_centers s ! j) \<le> query_similarity tr q (cluster_centers s ! c))
     \<and> (\<forall>j<c. query_similarity tr q (cluster_centers s ! j) < query_similarity tr q (cluster_centers s ! c))"
proof -
  let ?x = "normalize_row (tr (lower q))"
  let ?sims = "map (cosine ?x) (cluster_centers s)"
  have "check_array (cluster_centers s) \<and> length (hd (cluster_centers s)) = length (tr (lower q))"
    using assms check_array_rows [of "cluster_centers s" "length (tr (lower q))"] by simp
  then have sel: "fst (select_cluster [?x] s) = argmax ?sims"
    using assms(1) by (simp add: select_cluster_single normalize_row_Nil_iff length_normalize_row)
  obtain c where c: "argmax ?sims = Inr c"
    using argmax_nonempty [of ?sims] assms(2) by auto
  have lt: "c < length (cluster_centers s)"
    using argmax_props(1) [OF c] by simp
  have le: "cosine ?x (cluster_centers s ! j) \<le> cosine ?x (cluster_centers s ! c)"
    if "j < length (cluster_centers s)" for j
    using argmax_props(2) [OF c, of j] that lt by simp
  have less: "cosine ?x (cluster_centers s ! j) < cosine ?x (cluster_centers s ! c)"
    if "j < c" for j
    using argmax_props(3) [OF c, of j] that lt by simp
  show ?thesis
    using sel c lt le less by (auto simp: query_similarity_def)
qed

text \<open>
  For the all-zero query both centroids of \<open>two_topics\<close> tie at similarity 0, and
  cluster 0 is selected.
\<close>

theorem select_cluster_argmax_witness:
  "toy_transform (lower ''Kitten'') \<noteq> []
   \<and> cluster_centers two_topics = [[1, 0], [0, 1]]
   \<and> length (toy_transform (lower ''Kitten'')) = 2
   \<and> query_similarity toy_transform ''Kitten'' (cluster_centers two_topics ! 0)
     = query_similarity toy_transform ''Kitten'' (cluster_centers two_topics ! 1)
   \<and> fst (select_cluster [normalize_row (toy_transform (lower ''Kitten''))] two_topics) = Inr 0
   \<and> (\<exists>c. fst (select_cluster [normalize_row (toy_transform (lower ''Kitten''))] two_topics) = Inr c
          \<and> c < length (cluster_centers two_topics))"
proof -
  have a: "toy_transform (lower ''Kitten'') \<noteq> []" by (simp add: toy_Kitten)
  have b: "cluster_centers two_topics \<noteq> []" by (simp add: two_topics_def)
  have c: "\<forall>r\<in>set (cluster_centers two_topics). length r = length (toy_transform (lower ''Kitten''))"
    by (simp add: two_topics_def toy_Kitten)
  note t = select_cluster_argmax [where tr = toy_transform and q = "''Kitten''", OF a b c]
  have "query_similarity toy_transform ''Kitten'' (cluster_centers two_topics ! 0)
     = query_similarity toy_transform ''Kitten'' (cluster_centers two_topics ! 1)"
    by (simp add: two_topics_def query_similarity_Kitten)
  moreover have "cluster_centers two_topics = [[1, 0], [0, 1]]" by (simp add: two_topics_def)
  moreover have "length (toy_transform (lower ''Kitten'')) = 2" by (simp add: toy_Kitten)
  moreover from t have "\<exists>c. fst (select_cluster [normalize_row (toy_transform (lower ''Kitten''))] two_topics) = Inr c
          \<and> c < length (cluster_centers two_topics)" by blast
  ultimately show ?thesis using a select_Kitten by blast
qed

section \<open>The cluster index is a partition\<close>

text \<open>
  C7: the cluster index built from an assignment over N documents is a partition of
  \<open>{0..<N}\<close>: the member lists together cover exactly the document indices, every
  document is in the list of its own cluster, no index is in two lists, and each list is
  strictly ascending (original corpus order, no index twice).
\<close>

theorem cluster_index_partition:
  "\<Union> (set ` ran (create_cluster_index clusters)) = {0..<length clusters}
   \<and> (\<forall>i<length clusters. \<exists>members. create_cluster_index clusters (clusters ! i) = Some members \<and> i \<in> set members)
   \<and> (\<forall>c members. create_cluster_index clusters c = Some members \<longrightarrow> sorted_wrt (<) members)
   \<and> (\<forall>c c' members members'. create_cluster_index clusters c = Some members
         \<and> create_cluster_index clusters c' = Some members' \<and> c \<noteq> c' \<longrightarrow> set members \<inter> set members' = {})"
proof (intro conjI allI impI)
  show "\<Union> (set ` ran (create_cluster_index clusters)) = {0..<length clusters}"
  proof (intro equalityI subsetI)
    fix x assume "x \<in> \<Union> (set ` ran (create_cluster_index clusters))"
    then obtain c members where "create_cluster_index clusters c = Some members" "x \<in> set members"
      by (auto simp: ran_def)
    then show "x \<in> {0..<length clusters}"
      by (auto simp: create_cluster_index_lookup split: if_splits)
  next
    fix x assume "x \<in> {0..<length clusters}"
    then have "create_cluster_index clusters (clusters ! x) =
        Some (filter (\<lambda>j. clusters ! j = clusters ! x) [0..<length clusters])"
      and "x \<in> set (filter (\<lambda>j. clusters ! j = clusters ! x) [0..<length clusters])"
      by (simp_all add: create_cluster_index_lookup)
    then show "x \<in> \<Union> (set ` ran (create_cluster_index clusters))"
      unfolding ran_def by blast
  qed
next
  fix i assume "i < length clusters"
  then show "\<exists>members. create_cluster_index clusters (clusters ! i) = Some members \<and> i \<in> set members"
    by (simp add: create_cluster_index_lookup)
next
  fix c members assume "create_cluster_index clusters c = Some members"
  then have "members = filter (\<lambda>j. clusters ! j = c) [0..<length clusters]"
    by (simp add: create_cluster_index_lookup split: if_splits)
  then show "sorted_wrt (<) members"
    by (simp add: sorted_wrt_filter)
next
  fix c c' members members'
  assume "create_cluster_index clusters c = Some members
         \<and> create_cluster_index clusters c' = Some members' \<and> c \<noteq> c'"
  then show "set members \<inter> set members' = {}"
    by (auto simp: create_cluster_index_lookup split: if_splits)
qed

theorem cluster_index_partition_witness:
  "\<Union> (set ` ran (create_cluster_index [0, 1, 0])) = {0..<3}
   \<and> create_cluster_index [0, 1, 0] 0 = Some [0, 2]
   \<and> create_cluster_index [0, 1, 0] 1 = Some [1]
   \<and> sorted_wrt (<) [0, 2 :: nat]
   \<and> set [0, 2] \<inter> set [1 :: nat] = {}"
proof -
  note p = cluster_index_partition [of "[0, 1, 0]"]
  have a: "create_cluster_index [0, 1, 0] 0 = Some [0, 2]"
    by (simp add: create_cluster_index_def index_step_def)
  have b: "create_cluster_index [0, 1, 0] 1 = Some [1]"
    by (simp add: create_cluster_index_def index_step_def)
  have u: "\<Union> (set ` ran (create_cluster_index [0, 1, 0])) = {0..<3}"
    using conjunct1 [OF p] by (simp add: numeral_3_eq_3)
  have s: "sorted_wrt (<) [0, 2 :: nat]"
    using p a by blast
  have "(0::nat) \<noteq> 1" by simp
  with p a b have d: "set [0, 2] \<inter> set [1 :: nat] = {}"
    by blast
  from u a b s d show ?thesis by blast
qed

section \<open>Asking for more than the cluster has\<close>

text \<open>
  C8 does not hold: in \<open>one_topic\<close> the query ''bank'' selects cluster 1, which has no
  member; \<open>top_n = 5\<close> is greater than 0, and \<open>search\<close> raises KeyError.
\<close>

theorem top_n_beyond_empty_cluster_counterexample:
  "post_fit 2 [0, 0] one_topic
   \<and> fst (select_cluster [normalize_row (toy_transform (lower ''bank''))] one_topic) = Inr 1
   \<and> length (filter (\<lambda>l. l = 1) [0, 0 :: nat]) = 0
   \<and> (0 :: int) < 5
   \<and> fst (search argsort_stable ''bank'' toy_transform 5 one_topic) = Inl KeyError"
  using one_topic_post_fit select_bank_one_topic search_bank_one_topic by simp

text \<open>
  C8, amended: in a post-fit state, for \<open>top_n\<close> greater than the number of documents
  assigned to the selected cluster: when the cluster has at least one document,
  \<open>search\<close> raises nothing and returns the titles of a permutation of all members of
  the cluster, as many entries as the cluster has members, none added; when no document
  is assigned to the cluster, \<open>search\<close> raises KeyError.
\<close>

theorem top_n_beyond_cluster_size:
  assumes "argsort_ok A" "post_fit D clusters s" "length (tr (lower q)) = D"
    and "fst (select_cluster [normalize_row (tr (lower q))] s) = Inr c"
    and "int (length (filter (\<lambda>l. l = c) clusters)) < n"
  shows "(c \<notin> set clusters \<longrightarrow> fst (search A q tr n s) = Inl KeyError)
     \<and> (c \<in> set clusters \<longrightarrow>
          (\<exists>docs ds. cluster_index s c = Some docs
             \<and> length docs = length (filter (\<lambda>l. l = c) clusters)
             \<and> fst (search_docs A q tr n s) = Inr ds
             \<and> fst (search A q tr n s) = Inr (map ((!) (articles_titles s)) ds)
             \<and> mset ds = mset docs \<and> length ds = length docs))"
proof (intro conjI impI)
  have q: "tr (lower q) \<noteq> []" using assms(2,3) by (auto simp: post_fit_def)
  have ci: "cluster_index s = create_cluster_index clusters"
    using assms(2) by (simp add: post_fit_def)
  {
    assume "c \<notin> set clusters"
    then have "cluster_index s c = None"
      by (simp add: ci create_cluster_index_lookup)
    then show "fst (search A q tr n s) = Inl KeyError"
      using q assms(4) by (simp add: search_eq search_docs_eq normalize_l2_single)
  }
  {
    assume c: "c \<in> set clusters"
    define docs where "docs = filter (\<lambda>j. clusters ! j = c) [0..<length clusters]"
    have e: "cluster_index s c = Some docs"
      using c by (simp add: ci create_cluster_index_lookup docs_def)
    have ld: "length docs = length (filter (\<lambda>l. l = c) clusters)"
      unfolding docs_def by (rule length_members)
    let ?f = "\<lambda>d. query_similarity tr q (normalized_vectors s ! d)"
    let ?ds = "map ((!) docs) (rev (slice_last n (A (map ?f docs))))"
    note m = post_fit_members [OF assms(2) e]
    have "fst (search_docs A q tr n s) = getitems docs (rev (slice_last n (A (map ?f docs))))"
      using q assms(4) e m(2) m(4) assms(3) by (intro search_docs_InrI) auto
    then have ds: "fst (search_docs A q tr n s) = Inr ?ds"
      by (simp add: getitems_ranked [OF assms(1)])
    have ms: "mset ?ds = mset docs"
      using assms(1,5) ld by (intro ranked_all) auto
    then have sub: "set ?ds = set docs" by (rule mset_eq_setD)
    have t: "fst (search A q tr n s) = Inr (map ((!) (articles_titles s)) ?ds)"
      using m(5) sub by (simp add: search_eq ds getitems_def)
    have "length ?ds = length docs"
      using ms by (rule mset_eq_length)
    with e ld ds t ms
    show "\<exists>docs ds. cluster_index s c = Some docs
             \<and> length docs = length (filter (\<lambda>l. l = c) clusters)
             \<and> fst (search_docs A q tr n s) = Inr ds
             \<and> fst (search A q tr n s) = Inr (map ((!) (articles_titles s)) ds)
             \<and> mset ds = mset docs \<and> length ds = length docs"
      by blast
  }
qed

theorem top_n_beyond_cluster_size_witness:
  "argsort_ok argsort_stable \<and> post_fit 2 toy_labels two_topics
   \<and> length (toy_transform (lower ''Cat'')) = 2
   \<and> fst (select_cluster [normalize_row (toy_transform (lower ''Cat''))] two_topics) = Inr 0
   \<and> int (length (filter (\<lambda>l. l = 0) toy_labels)) < 5
   \<and> 0 \<in> set toy_labels
   \<and> (\<exists>docs ds. cluster_index two_topics 0 = Some docs
          \<and> length docs = length (filter (\<lambda>l. l = 0) toy_labels)
          \<and> fst (search_docs argsort_stable ''Cat'' toy_transform 5 two_topics) = Inr ds
          \<and> fst (search argsort_stable ''Cat'' toy_transform 5 two_topics)
              = Inr (map ((!) (articles_titles two_topics)) ds)
          \<and> mset ds = mset docs \<and> length ds = length docs)
   \<and> post_fit 2 [0, 0] one_topic
   \<and> length (toy_transform (lower ''bank'')) = 2
   \<and> fst (select_cluster [normalize_row (toy_transform (lower ''bank''))] one_topic) = Inr 1
   \<and> int (length (filter (\<lambda>l. l = 1) [0, 0 :: nat])) < 5
   \<and> 1 \<notin> set [0, 0 :: nat]
   \<and> fst (search argsort_stable ''bank'' toy_transform 5 one_topic) = Inl KeyError"
proof -
  have l: "length (toy_transform (lower ''Cat'')) = 2" by (simp add: toy_Cat)
  have n: "int (length (filter (\<lambda>l. l = 0) toy_labels)) < 5" by (simp add: toy_labels_def)
  have i: "0 \<in> set toy_labels" by (simp add: toy_labels_def)
  note t = top_n_beyond_cluster_size [where tr = toy_transform and q = "''Cat''" and n = 5,
      OF argsort_stable_ok two_topics_post_fit l select_Cat n]
  from t [THEN conjunct2, THEN mp, OF i] have a: "\<exists>docs ds. cluster_index two_topics 0 = Some docs
          \<and> length docs = length (filter (\<lambda>l. l = 0) toy_labels)
          \<and> fst (search_docs argsort_stable ''Cat'' toy_transform 5 two_topics) = Inr ds
          \<and> fst (search argsort_stable ''Cat'' toy_transform 5 two_topics)
              = Inr (map ((!) (articles_titles two_topics)) ds)
          \<and> mset ds = mset docs \<and> length ds = length docs"
    .
  have l': "length (toy_transform (lower ''bank'')) = 2" by (simp add: lower_bank toy_transform_def)
  have n': "int (length (filter (\<lambda>l. l = 1) [0, 0 :: nat])) < 5" by simp
  have i': "1 \<notin> set [0, 0 :: nat]" by simp
  note u = top_n_beyond_cluster_size [where tr = toy_transform and q = "''bank''" and n = 5,
      OF argsort_stable_ok one_topic_post_fit l' select_bank_one_topic n']
  from u [THEN conjunct1, THEN mp, OF i'] have b: "fst (search argsort_stable ''bank'' toy_transform 5 one_topic) = Inl KeyError"
    .
  show ?thesis
    by (intro conjI) (fact argsort_stable_ok two_topics_post_fit l select_Cat n i a
        one_topic_post_fit l' select_bank_one_topic n' i' b)+
qed

section \<open>Queries are read-only\<close>

text \<open>
  C9: the heap-level query \<open>search_obj\<close> leaves every object that existed before the
  call as it was and only allocates new objects, whatever it returns (the address of a
  list of titles or an error). So when the heap holds a post-fit state (centroids,
  document vectors, cluster index with its member lists, titles) at the addresses
  given to the query, it holds the same state afterwards; and the call returns what the
  value-level \<open>search\<close> returns on that state.
\<close>

theorem search_read_only:
  "(\<exists>fresh. snd (search_obj A q tr km nv ci ts n h) = h @ fresh)
   \<and> (represents h km nv ci ts s \<longrightarrow>
        represents (snd (search_obj A q tr km nv ci ts n h)) km nv ci ts s
      \<and> (case fst (search_obj A q tr km nv ci ts n h) of
           Inl e \<Rightarrow> fst (search A q tr n s) = Inl e
         | Inr a \<Rightarrow> a < length (snd (search_obj A q tr km nv ci ts n h))
                    \<and> (\<exists>titles. snd (search_obj A q tr km nv ci ts n h) ! a = StrList titles
                          \<and> fst (search A q tr n s) = Inr titles)))"
proof (intro conjI impI)
  show ex: "\<exists>fresh. snd (search_obj A q tr km nv ci ts n h) = h @ fresh"
    using only_allocates_search_obj [of A q tr km nv ci ts n]
    by (simp add: only_allocates_def)
  assume r: "represents h km nv ci ts s"
  from ex obtain fresh where "snd (search_obj A q tr km nv ci ts n h) = h @ fresh" ..
  then show "represents (snd (search_obj A q tr km nv ci ts n h)) km nv ci ts s"
    using represents_extend [OF r, of fresh] by simp
  show "case fst (search_obj A q tr km nv ci ts n h) of
           Inl e \<Rightarrow> fst (search A q tr n s) = Inl e
         | Inr a \<Rightarrow> a < length (snd (search_obj A q tr km nv ci ts n h))
                    \<and> (\<exists>titles. snd (search_obj A q tr km nv ci ts n h) ! a = StrList titles
                          \<and> fst (search A q tr n s) = Inr titles)"
    by (rule search_obj_refines [OF r])
qed

theorem search_read_only_witness:
  "represents toy_heap 0 2 3 6 two_topics
   \<and> (\<exists>fresh. snd (search_obj argsort_stable ''Cat'' toy_transform 0 2 3 6 5 toy_heap) = toy_heap @ fresh)
   \<and> represents (snd (search_obj argsort_stable ''Cat'' toy_transform 0 2 3 6 5 toy_heap)) 0 2 3 6 two_topics
   \<and> (\<exists>a. fst (search_obj argsort_stable ''Cat'' toy_transform 0 2 3 6 5 toy_heap) = Inr a
         \<and> snd (search_obj argsort_stable ''Cat'' toy_transform 0 2 3 6 5 toy_heap) ! a
             = StrList [''dog'', ''cat''])"
proof -
  let ?S = "search_obj argsort_stable ''Cat'' toy_transform 0 2 3 6 5 toy_heap"
  note t = search_read_only [of argsort_stable "''Cat''" toy_transform 0 2 3 6 5 toy_heap two_topics]
  from t have a: "\<exists>fresh. snd ?S = toy_heap @ fresh" by (rule conjunct1)
  from t [THEN conjunct2, THEN mp, OF toy_heap_represents]
  have b: "represents (snd ?S) 0 2 3 6 two_topics"
    and c: "case fst ?S of
           Inl e \<Rightarrow> fst (search argsort_stable ''Cat'' toy_transform 5 two_topics) = Inl e
         | Inr a \<Rightarrow> a < length (snd ?S)
                    \<and> (\<exists>titles. snd ?S ! a = StrList titles
                          \<and> fst (search argsort_stable ''Cat'' toy_transform 5 two_topics) = Inr titles)"
    by (rule conjunct1, rule conjunct2)
  have d: "\<exists>a. fst ?S = Inr a \<and> snd ?S ! a = StrList [''dog'', ''cat'']"
    using c search_Cat by (cases "fst ?S") auto
  show ?thesis
    by (intro conjI) (fact toy_heap_represents a b d)+
qed

section \<open>The slice for top_n = 0\<close>

text \<open>
  C10: for \<open>top_n = 0\<close> the slice \<open>[-0:]\<close> is the whole array: in a post-fit state,
  when the selected cluster has an entry, \<open>search\<close> returns the titles of all members
  of the cluster, in descending order of similarity, not an empty result.
\<close>

theorem top_n_zero_returns_all:
  assumes "argsort_ok A" "post_fit D clusters s" "length (tr (lower q)) = D"
    and "fst (select_cluster [normalize_row (tr (lower q))] s) = Inr c"
    and "cluster_index s c = Some docs"
  shows "\<exists>ds. fst (search_docs A q tr 0 s) = Inr ds
     \<and> fst (search A q tr 0 s) = Inr (map ((!) (articles_titles s)) ds)
     \<and> mset ds = mset docs \<and> length ds = length docs
     \<and> sorted_wrt (\<ge>) (map (\<lambda>d. query_similarity tr q (normalized_vectors s ! d)) ds)"
proof -
  let ?f = "\<lambda>d. query_similarity tr q (normalized_vectors s ! d)"
  let ?ds = "map ((!) docs) (rev (slice_last 0 (A (map ?f docs))))"
  note m = post_fit_members [OF assms(2,5)]
  have q: "tr (lower q) \<noteq> []" using assms(2,3) by (auto simp: post_fit_def)
  have "fst (search_docs A q tr 0 s) = getitems docs (rev (slice_last 0 (A (map ?f docs))))"
    using q assms(4,5) m(2) m(4) assms(3) by (intro search_docs_InrI) auto
  then have ds: "fst (search_docs A q tr 0 s) = Inr ?ds"
    by (simp add: getitems_ranked [OF assms(1)])
  have ms: "mset ?ds = mset docs"
    using assms(1) by (intro ranked_all) auto
  then have sub: "set ?ds = set docs" by (rule mset_eq_setD)
  have "fst (search A q tr 0 s) = Inr (map ((!) (articles_titles s)) ?ds)"
    using m(5) sub by (simp add: search_eq ds getitems_def)
  moreover have "length ?ds = length docs"
    using ms by (rule mset_eq_length)
  moreover have "sorted_wrt (\<ge>) (map ?f ?ds)"
    by (rule ranked_descending [OF assms(1)])
  ultimately show ?thesis using ds ms by blast
qed

theorem top_n_zero_returns_all_witness:
  "argsort_ok argsort_stable \<and> post_fit 2 toy_labels two_topics
   \<and> length (toy_transform (lower ''Cat'')) = 2
   \<and> fst (select_cluster [normalize_row (toy_transform (lower ''Cat''))] two_topics) = Inr 0
   \<and> cluster_index two_topics 0 = Some [0, 1]
   \<and> fst (search_docs argsort_stable ''Cat'' toy_transform 0 two_topics) = Inr [1, 0]
   \<and> (\<exists>ds. fst (search_docs argsort_stable ''Cat'' toy_transform 0 two_topics) = Inr ds
          \<and> fst (search argsort_stable ''Cat'' toy_transform 0 two_topics)
              = Inr (map ((!) (articles_titles two_topics)) ds)
          \<and> mset ds = mset [0, 1] \<and> length ds = length [0, 1 :: nat]
          \<and> sorted_wrt (\<ge>)
               (map (\<lambda>d. query_similarity toy_transform ''Cat'' (normalized_vectors two_topics ! d)) ds))"
proof -
  have l: "length (toy_transform (lower ''Cat'')) = 2" by (simp add: toy_Cat)
  note t = top_n_zero_returns_all [where tr = toy_transform and q = "''Cat''",
      OF argsort_stable_ok two_topics_post_fit l select_Cat two_topics_index_0]
  with argsort_stable_ok two_topics_post_fit l select_Cat two_topics_index_0 search_docs_Cat_0
  show ?thesis by blast
qed

end
